theory Spec2Isabelle
  imports Complex_Main "HOL-Library.AList"
begin

section \<open>Floating-point values\<close>

text \<open>
  The script works on pandas and numpy arrays of 64-bit floats.  A cell is modelled as an
  exact real number or one of the three special values of IEEE 754.  Arithmetic on finite
  values is exact: rounding, overflow and the sign of zero are not modelled.  What is
  modelled is how the special values arise (division by zero) and how they propagate,
  which is what the pipeline's row dropping and input check react to.
\<close>

datatype float64 = Fin real | PInf | NInf | NaN

fun isnan :: "float64 \<Rightarrow> bool" where
  "isnan NaN = True"
| "isnan _ = False"

fun isinf :: "float64 \<Rightarrow> bool" where
  "isinf PInf = True"
| "isinf NInf = True"
| "isinf _ = False"

fun isfinite :: "float64 \<Rightarrow> bool" where
  "isfinite (Fin _) = True"
| "isfinite _ = False"

fun the_real :: "float64 \<Rightarrow> real" where
  "the_real (Fin r) = r"
| "the_real _ = 0"

fun fsub :: "float64 \<Rightarrow> float64 \<Rightarrow> float64" where
  "fsub NaN _ = NaN"
| "fsub _ NaN = NaN"
| "fsub (Fin a) (Fin b) = Fin (a - b)"
| "fsub (Fin _) PInf = NInf"
| "fsub (Fin _) NInf = PInf"
| "fsub PInf PInf = NaN"
| "fsub PInf _ = PInf"
| "fsub NInf NInf = NaN"
| "fsub NInf _ = NInf"

fun fdiv :: "float64 \<Rightarrow> float64 \<Rightarrow> float64" where
  "fdiv NaN _ = NaN"
| "fdiv _ NaN = NaN"
| "fdiv (Fin a) (Fin b) =
     (if b \<noteq> 0 then Fin (a / b)
      else if 0 < a then PInf else if a < 0 then NInf else NaN)"
| "fdiv (Fin _) _ = Fin 0"
| "fdiv PInf (Fin b) = (if 0 \<le> b then PInf else NInf)"
| "fdiv NInf (Fin b) = (if 0 \<le> b then NInf else PInf)"
| "fdiv _ _ = NaN"

section \<open>Errors\<close>

text \<open>
  The exceptions the script can raise, by Python class.  \<open>KeyError\<close> carries the missing
  column label; \<open>ValueError\<close> carries its message (the one of \<open>train_hmm\<close> is the
  source's own text, the others name the library check that raises).
\<close>

datatype error = KeyError string | ValueError string | NameError string

section \<open>Data frames\<close>

text \<open>
  A \<open>DataFrame\<close> is an index and an ordered list of labelled columns of equal length.
  \<open>pd.read_csv\<close> itself is not modelled: the functions below start from the table it
  returns.
\<close>

record dataframe =
  index :: "float64 list"
  columns :: "(string \<times> float64 list) list"

definition nrows :: "dataframe \<Rightarrow> nat" where
  "nrows df = length (index df)"

definition well_formed :: "dataframe \<Rightarrow> bool" where
  "well_formed df \<longleftrightarrow> (\<forall>c \<in> set (map snd (columns df)). length c = nrows df)"

text \<open>\<open>df[label]\<close>: the column, or \<open>KeyError\<close>.\<close>

definition getitem :: "dataframe \<Rightarrow> string \<Rightarrow> error + float64 list" where
  "getitem df label =
     (case map_of (columns df) label of
        None \<Rightarrow> Inl (KeyError label)
      | Some c \<Rightarrow> Inr c)"

text \<open>\<open>df[label] = series\<close>: replaces the column in place, or appends a new last column.\<close>

definition setitem :: "dataframe \<Rightarrow> string \<Rightarrow> float64 list \<Rightarrow> dataframe" where
  "setitem df label c = df\<lparr>columns := AList.update label c (columns df)\<rparr>"

text \<open>
  \<open>pd.to_datetime(series, unit='s')\<close>: a missing value becomes \<open>NaT\<close> (kept as \<open>NaN\<close>),
  a number of seconds outside the nanosecond range of a 64-bit timestamp raises
  \<open>OutOfBoundsDatetime\<close>, a subclass of \<open>ValueError\<close>.
\<close>

fun in_timestamp_range :: "float64 \<Rightarrow> bool" where
  "in_timestamp_range NaN = True"
| "in_timestamp_range (Fin s) = (\<bar>s\<bar> * 10 ^ 9 < 2 ^ 63)"
| "in_timestamp_range _ = False"

definition to_datetime :: "float64 list \<Rightarrow> error + float64 list" where
  "to_datetime ts =
     (if list_all in_timestamp_range ts then Inr ts
      else Inl (ValueError ''OutOfBoundsDatetime''))"

text \<open>\<open>df.set_index(label, inplace=True)\<close>: the column becomes the index and leaves the columns.\<close>

definition set_index :: "dataframe \<Rightarrow> string \<Rightarrow> error + dataframe" where
  "set_index df label =
     (case map_of (columns df) label of
        None \<Rightarrow> Inl (KeyError label)
      | Some c \<Rightarrow> Inr (df\<lparr>index := c, columns := AList.delete label (columns df)\<rparr>))"

text \<open>
  \<open>df.dropna(inplace=True)\<close>: keeps the rows in which no column holds a missing value.
  pandas counts \<open>NaN\<close> as missing, not infinity; the index is not inspected.
\<close>

definition row_complete :: "dataframe \<Rightarrow> nat \<Rightarrow> bool" where
  "row_complete df i \<longleftrightarrow> list_all (\<lambda>c. \<not> isnan (c ! i)) (map snd (columns df))"

definition take_rows :: "nat list \<Rightarrow> dataframe \<Rightarrow> dataframe" where
  "take_rows keep df =
     df\<lparr>index := map ((!) (index df)) keep,
        columns := map (\<lambda>(label, c). (label, map ((!) c) keep)) (columns df)\<rparr>"

definition dropna :: "dataframe \<Rightarrow> dataframe" where
  "dropna df = take_rows (filter (row_complete df) [0..<nrows df]) df"

section \<open>Series operations\<close>

text \<open>
  \<open>Series.pct_change()\<close> with its defaults: missing values are first filled forward
  (\<open>fill_method='pad'\<close>, the default of the pandas 1.x and 2.x series), the series is
  shifted by one period, and the result is \<open>data / shifted - 1\<close>.
\<close>

fun ffill_from :: "float64 \<Rightarrow> float64 list \<Rightarrow> float64 list" where
  "ffill_from prev [] = []"
| "ffill_from prev (x # xs) =
     (if isnan x then prev # ffill_from prev xs else x # ffill_from x xs)"

definition ffill :: "float64 list \<Rightarrow> float64 list" where
  "ffill xs = ffill_from NaN xs"

definition shift :: "float64 list \<Rightarrow> float64 list" where
  "shift xs = (if xs = [] then [] else NaN # butlast xs)"

definition pct_change :: "float64 list \<Rightarrow> float64 list" where
  "pct_change xs =
     (let data = ffill xs
      in map2 (\<lambda>a b. fsub (fdiv a b) (Fin 1)) data (shift data))"

text \<open>
  \<open>Series.rolling(window=w).std()\<close>: the window of row \<open>i\<close> is the slice
  \<open>[max(i + 1 - w, 0), i + 1)\<close>; infinities are turned into missing values before the
  computation; with the default \<open>min_periods = w\<close> the result is missing unless the window
  holds \<open>w\<close> observations, and is else their standard deviation with one delta degree of
  freedom.
\<close>

definition sample_std :: "real list \<Rightarrow> real" where
  "sample_std xs =
     (let n = real (length xs); m = sum_list xs / n
      in sqrt (sum_list (map (\<lambda>x. (x - m)\<^sup>2) xs) / (n - 1)))"

definition window_std :: "nat \<Rightarrow> float64 list \<Rightarrow> float64" where
  "window_std min_periods win =
     (let obs = map the_real (filter isfinite win)
      in if min_periods \<le> length obs \<and> 1 < length obs then Fin (sample_std obs) else NaN)"

definition rolling_std :: "nat \<Rightarrow> float64 list \<Rightarrow> float64 list" where
  "rolling_std w xs =
     map (\<lambda>i. window_std w (take (i + 1 - (i + 1 - w)) (drop (i + 1 - w) xs)))
       [0..<length xs]"

section \<open>Loading and feature engineering\<close>

text \<open>Lines 23 to 26 of \<open>load_and_preprocess_data\<close>: the time index.\<close>

definition parse_index :: "dataframe \<Rightarrow> error + dataframe" where
  "parse_index df =
     (case getitem df ''datetime'' of Inl e \<Rightarrow> Inl e | Inr ts \<Rightarrow>
     (case to_datetime ts of Inl e \<Rightarrow> Inl e | Inr dt \<Rightarrow>
      set_index (setitem df ''datetime'' dt) ''datetime''))"

text \<open>Lines 29 to 33: the three derived columns, in the order of the source.\<close>

definition add_features :: "dataframe \<Rightarrow> error + dataframe" where
  "add_features df =
     (case getitem df ''close'' of Inl e \<Rightarrow> Inl e | Inr close \<Rightarrow>
      let df1 = setitem df ''Returns'' (pct_change close) in
     (case getitem df1 ''Returns'' of Inl e \<Rightarrow> Inl e | Inr returns \<Rightarrow>
      let df2 = setitem df1 ''Volatility'' (rolling_std 24 returns) in
     (case getitem df2 ''volume'' of Inl e \<Rightarrow> Inl e | Inr volume \<Rightarrow>
      Inr (setitem df2 ''Volume_Change'' (pct_change volume)))))"

definition load_and_preprocess_data :: "dataframe \<Rightarrow> error + dataframe" where
  "load_and_preprocess_data df =
     (case parse_index df of Inl e \<Rightarrow> Inl e | Inr df1 \<Rightarrow>
     (case add_features df1 of Inl e \<Rightarrow> Inl e | Inr df2 \<Rightarrow>
      Inr (dropna df2)))"

section \<open>Normalisation\<close>

text \<open>
  \<open>data[features].values\<close>: the matrix of the three feature columns, one row per row of
  the table.
\<close>

definition feature_values :: "dataframe \<Rightarrow> error + float64 list list" where
  "feature_values data =
     (case getitem data ''Returns'' of Inl e \<Rightarrow> Inl e | Inr r \<Rightarrow>
     (case getitem data ''Volatility'' of Inl e \<Rightarrow> Inl e | Inr v \<Rightarrow>
     (case getitem data ''Volume_Change'' of Inl e \<Rightarrow> Inl e | Inr c \<Rightarrow>
      Inr (map (\<lambda>i. [r ! i, v ! i, c ! i]) [0..<nrows data]))))"

text \<open>
  scikit-learn's \<open>StandardScaler\<close>.  Its input validation rejects an array of no rows and
  an array holding an infinity, and lets missing values through; \<open>transform\<close> also rejects
  an array whose number of columns is not the one seen by \<open>fit\<close>; the statistics of a
  column are taken over its observed values, the variance with no delta degree of
  freedom; a column of zero variance gets the scale 1.
\<close>

text \<open>The fields are the attributes \<open>mean_\<close>, \<open>var_\<close> and \<open>scale_\<close>.\<close>

record StandardScaler =
  scaler_mean :: "float64 list"
  scaler_var :: "float64 list"
  scaler_scale :: "float64 list"

definition check_array :: "float64 list list \<Rightarrow> error + unit" where
  "check_array X =
     (if X = [] then Inl (ValueError ''Found array with 0 sample(s)'')
      else if list_ex (list_ex isinf) X then Inl (ValueError ''Input contains infinity'')
      else Inr ())"

definition column :: "float64 list list \<Rightarrow> nat \<Rightarrow> float64 list" where
  "column X j = map (\<lambda>row. row ! j) X"

definition nanmean :: "float64 list \<Rightarrow> float64" where
  "nanmean col =
     (let obs = map the_real (filter isfinite col)
      in if obs = [] then NaN else Fin (sum_list obs / real (length obs)))"

definition nanvar :: "float64 list \<Rightarrow> float64" where
  "nanvar col =
     (let obs = map the_real (filter isfinite col)
      in if obs = [] then NaN
         else let m = sum_list obs / real (length obs)
              in Fin (sum_list (map (\<lambda>x. (x - m)\<^sup>2) obs) / real (length obs)))"

fun handle_zeros_in_scale :: "float64 \<Rightarrow> float64" where
  "handle_zeros_in_scale (Fin v) = (if v = 0 then Fin 1 else Fin (sqrt v))"
| "handle_zeros_in_scale x = x"

definition scaler_fit :: "float64 list list \<Rightarrow> error + StandardScaler" where
  "scaler_fit X =
     (case check_array X of Inl e \<Rightarrow> Inl e | Inr _ \<Rightarrow>
      let cols = map (column X) [0..<length (hd X)]
      in Inr \<lparr>scaler_mean = map nanmean cols, scaler_var = map nanvar cols,
              scaler_scale = map (handle_zeros_in_scale \<circ> nanvar) cols\<rparr>)"

definition scaler_transform :: "StandardScaler \<Rightarrow> float64 list list \<Rightarrow> error + float64 list list" where
  "scaler_transform scaler X =
     (case check_array X of Inl e \<Rightarrow> Inl e | Inr _ \<Rightarrow>
      if list_ex (\<lambda>row. length row \<noteq> length (scaler_mean scaler)) X
      then Inl (ValueError ''X has a different number of features than StandardScaler expects'')
      else Inr (map (\<lambda>row. map (\<lambda>(x, m, s). fdiv (fsub x m) s)
                             (zip row (zip (scaler_mean scaler) (scaler_scale scaler)))) X))"

text \<open>\<open>fit_transform\<close> is \<open>fit(X).transform(X)\<close>.\<close>

definition fit_transform :: "float64 list list \<Rightarrow> error + StandardScaler \<times> float64 list list" where
  "fit_transform X =
     (case scaler_fit X of Inl e \<Rightarrow> Inl e | Inr scaler \<Rightarrow>
     (case scaler_transform scaler X of Inl e \<Rightarrow> Inl e | Inr X_scaled \<Rightarrow>
      Inr (scaler, X_scaled)))"

section \<open>The hidden Markov model\<close>

text \<open>
  The constructor arguments of \<open>hmm.GaussianHMM\<close> and the parameters of a fitted model.
  The estimator itself (expectation maximisation, started from \<open>random_state\<close>) belongs
  to hmmlearn; \<open>train_hmm\<close> takes it as the argument \<open>fit\<close>, a function of the
  constructor arguments and the training matrix that may raise.  The emission density of
  a fitted model is the argument \<open>log_density\<close> of the decoder: the logarithm of the
  density of state \<open>i\<close> at a row.
\<close>

record hmm_params =
  hp_n_components :: nat
  hp_covariance_type :: string
  hp_n_iter :: nat
  hp_tol :: real
  hp_random_state :: nat

record GaussianHMM =
  n_components :: nat
  startprob :: "real list"
  transmat :: "real list list"
  means :: "real list list"
  covars :: "real list list list"

type_synonym estimator = "hmm_params \<Rightarrow> float64 list list \<Rightarrow> error + GaussianHMM"

type_synonym density = "GaussianHMM \<Rightarrow> nat \<Rightarrow> float64 list \<Rightarrow> float64"

definition has_nan_or_inf :: "float64 list list \<Rightarrow> bool" where
  "has_nan_or_inf X \<longleftrightarrow> list_ex (list_ex isnan) X \<or> list_ex (list_ex isinf) X"

definition invalid_input :: error where
  "invalid_input =
     ValueError ''Input data contains NaN or infinite values. Please clean the data before training.''"

text \<open>
  \<open>train_hmm(data, n_components)\<close>; the main script relies on the default
  \<open>n_components=4\<close>.
\<close>

definition train_hmm :: "estimator \<Rightarrow> dataframe \<Rightarrow> nat \<Rightarrow> error + GaussianHMM \<times> StandardScaler" where
  "train_hmm fit data k =
     (case feature_values data of Inl e \<Rightarrow> Inl e | Inr X \<Rightarrow>
      if has_nan_or_inf X then Inl invalid_input
      else
     (case fit_transform X of Inl e \<Rightarrow> Inl e | Inr (scaler, X_scaled) \<Rightarrow>
     (case fit \<lparr>hp_n_components = k, hp_covariance_type = ''full'', hp_n_iter = 200,
                hp_tol = 1 / 100, hp_random_state = 42\<rparr> X_scaled of
        Inl e \<Rightarrow> Inl e
      | Inr model \<Rightarrow> Inr (model, scaler))))"

section \<open>Decoding\<close>

text \<open>
  \<open>model.predict\<close> validates its input (no missing value, no infinity) and returns the
  state sequence of hmmlearn's default decoder, the Viterbi algorithm, run on the
  logarithms of the start probabilities, of the transition matrix and of the emission
  densities of the rows.
\<close>

fun fadd :: "float64 \<Rightarrow> float64 \<Rightarrow> float64" where
  "fadd NaN _ = NaN"
| "fadd _ NaN = NaN"
| "fadd (Fin a) (Fin b) = Fin (a + b)"
| "fadd (Fin _) x = x"
| "fadd PInf NInf = NaN"
| "fadd PInf _ = PInf"
| "fadd NInf PInf = NaN"
| "fadd NInf _ = NInf"

fun fless :: "float64 \<Rightarrow> float64 \<Rightarrow> bool" where
  "fless NaN _ = False"
| "fless _ NaN = False"
| "fless (Fin a) (Fin b) = (a < b)"
| "fless (Fin _) x = (x = PInf)"
| "fless PInf _ = False"
| "fless NInf x = (x \<noteq> NInf)"

definition flog :: "real \<Rightarrow> float64" where
  "flog p = (if p < 0 then NaN else if p = 0 then NInf else Fin (ln p))"

text \<open>The maximum and the first position of the maximum, both scanning from \<open>-inf\<close>.\<close>

fun fmax_from :: "float64 \<Rightarrow> float64 list \<Rightarrow> float64" where
  "fmax_from best [] = best"
| "fmax_from best (x # xs) = fmax_from (if fless best x then x else best) xs"

fun argmax_from :: "nat \<Rightarrow> nat \<Rightarrow> float64 \<Rightarrow> float64 list \<Rightarrow> nat" where
  "argmax_from i pos best [] = pos"
| "argmax_from i pos best (x # xs) =
     (if fless best x then argmax_from (Suc i) i x xs
      else argmax_from (Suc i) pos best xs)"

definition argmax :: "float64 list \<Rightarrow> nat" where
  "argmax xs = argmax_from 0 0 NInf xs"

fun viterbi_lattice ::
  "nat \<Rightarrow> float64 list list \<Rightarrow> float64 list \<Rightarrow> float64 list list \<Rightarrow> float64 list list" where
  "viterbi_lattice k log_transmat prev [] = []"
| "viterbi_lattice k log_transmat prev (frame # frames) =
     (let row = map (\<lambda>i. fadd (fmax_from NInf
                                  (map (\<lambda>j. fadd (log_transmat ! j ! i) (prev ! j)) [0..<k]))
                              (frame ! i)) [0..<k]
      in row # viterbi_lattice k log_transmat row frames)"

text \<open>
  The traceback walks the lattice from the row before the last one down to the first:
  \<open>rows\<close> is in that order, and so is the result.
\<close>

fun traceback :: "nat \<Rightarrow> float64 list list \<Rightarrow> nat \<Rightarrow> float64 list list \<Rightarrow> nat list" where
  "traceback k log_transmat where_from [] = []"
| "traceback k log_transmat where_from (row # rows) =
     (let s = argmax (map (\<lambda>i. fadd (row ! i) (log_transmat ! i ! where_from)) [0..<k])
      in s # traceback k log_transmat s rows)"

definition viterbi ::
  "nat \<Rightarrow> float64 list \<Rightarrow> float64 list list \<Rightarrow> float64 list list \<Rightarrow> nat list" where
  "viterbi k log_startprob log_transmat framelogprob =
     (case framelogprob of
        [] \<Rightarrow> []
      | frame # frames \<Rightarrow>
          let first = map (\<lambda>i. fadd (log_startprob ! i) (frame ! i)) [0..<k];
              lattice = first # viterbi_lattice k log_transmat first frames;
              final = argmax (last lattice)
          in rev (final # traceback k log_transmat final (tl (rev lattice))))"

definition hmm_predict :: "density \<Rightarrow> GaussianHMM \<Rightarrow> float64 list list \<Rightarrow> error + nat list" where
  "hmm_predict log_density model X =
     (if X = [] then Inl (ValueError ''Found array with 0 sample(s)'')
      else if has_nan_or_inf X then Inl (ValueError ''Input contains NaN or infinity'')
      else Inr (viterbi (n_components model)
                  (map flog (startprob model))
                  (map (map flog) (transmat model))
                  (map (\<lambda>x. map (\<lambda>i. log_density model i x) [0..<n_components model]) X)))"

definition predict_states ::
  "density \<Rightarrow> GaussianHMM \<Rightarrow> dataframe \<Rightarrow> StandardScaler \<Rightarrow> error + nat list" where
  "predict_states log_density model data scaler =
     (case feature_values data of Inl e \<Rightarrow> Inl e | Inr X \<Rightarrow>
     (case scaler_transform scaler X of Inl e \<Rightarrow> Inl e | Inr X_scaled \<Rightarrow>
      hmm_predict log_density model X_scaled))"

section \<open>Reporting and plotting\<close>

text \<open>
  \<open>analyze_states\<close> and \<open>plot_results\<close> take \<open>data\<close> and \<open>states\<close> and read the name
  \<open>model\<close>, which is not among their parameters: Python resolves it in the module's
  globals when the loop header runs.  The globals are passed explicitly; \<open>model\<close> is
  unbound until the main script has assigned it.
\<close>

record globals =
  model :: "GaussianHMM option"

definition lookup_model :: "globals \<Rightarrow> error + GaussianHMM" where
  "lookup_model g = (case model g of None \<Rightarrow> Inl (NameError ''model'') | Some m \<Rightarrow> Inr m)"

text \<open>\<open>df[label] = array\<close>: the array must have one value per row.\<close>

definition setitem_array :: "dataframe \<Rightarrow> string \<Rightarrow> float64 list \<Rightarrow> error + dataframe" where
  "setitem_array df label vals =
     (if length vals \<noteq> nrows df
      then Inl (ValueError ''Length of values does not match length of index'')
      else Inr (setitem df label vals))"

text \<open>
  One round of the loop of \<open>analyze_states\<close>: the rows labelled \<open>state\<close>, their three
  feature columns (what \<open>describe()\<close> summarises) and their number.
\<close>

definition analyze_state :: "dataframe \<Rightarrow> nat \<Rightarrow> error + nat \<times> float64 list list \<times> nat" where
  "analyze_state df_analysis state =
     (case getitem df_analysis ''State'' of Inl e \<Rightarrow> Inl e | Inr labels \<Rightarrow>
      let state_data =
            take_rows (filter (\<lambda>i. labels ! i = Fin (real state)) [0..<nrows df_analysis])
              df_analysis
      in (case feature_values state_data of
            Inl e \<Rightarrow> Inl e
          | Inr described \<Rightarrow> Inr (state, described, nrows state_data)))"

fun for_each :: "('a \<Rightarrow> error + 'b) \<Rightarrow> 'a list \<Rightarrow> error + 'b list" where
  "for_each body [] = Inr []"
| "for_each body (x # xs) =
     (case body x of Inl e \<Rightarrow> Inl e | Inr y \<Rightarrow>
     (case for_each body xs of Inl e \<Rightarrow> Inl e | Inr ys \<Rightarrow> Inr (y # ys)))"

definition analyze_states ::
  "globals \<Rightarrow> dataframe \<Rightarrow> nat list \<Rightarrow> error + (nat \<times> float64 list list \<times> nat) list" where
  "analyze_states g data states =
     (case setitem_array data ''State'' (map (\<lambda>s. Fin (real s)) states) of
        Inl e \<Rightarrow> Inl e
      | Inr df_analysis \<Rightarrow>
     (case lookup_model g of Inl e \<Rightarrow> Inl e | Inr m \<Rightarrow>
      for_each (analyze_state df_analysis) [0..<n_components m]))"

text \<open>
  What \<open>plot_results\<close> draws: the price line, one shaded band per state (its mask over
  the rows) and the returns line.  \<open>fill_between\<close> rejects a mask whose size is not the
  number of points.
\<close>

record figure =
  price_line :: "float64 list \<times> float64 list"
  bands :: "(nat \<times> bool list) list"
  returns_line :: "float64 list \<times> float64 list"

definition fill_between :: "dataframe \<Rightarrow> nat list \<Rightarrow> nat \<Rightarrow> error + nat \<times> bool list" where
  "fill_between data states state =
     (let mask = map (\<lambda>s. s = state) states
      in if length mask \<noteq> nrows data
         then Inl (ValueError ''where size does not match x size'')
         else Inr (state, mask))"

definition plot_results :: "globals \<Rightarrow> dataframe \<Rightarrow> nat list \<Rightarrow> error + figure" where
  "plot_results g data states =
     (case getitem data ''close'' of Inl e \<Rightarrow> Inl e | Inr close \<Rightarrow>
     (case lookup_model g of Inl e \<Rightarrow> Inl e | Inr m \<Rightarrow>
     (case for_each (fill_between data states) [0..<n_components m] of
        Inl e \<Rightarrow> Inl e
      | Inr bs \<Rightarrow>
     (case getitem data ''Returns'' of Inl e \<Rightarrow> Inl e | Inr returns \<Rightarrow>
      Inr \<lparr>price_line = (index data, close), bands = bs,
           returns_line = (index data, returns)\<rparr>))))"

section \<open>The main script\<close>

text \<open>
  Lines 128 to 144: load, train with the default four states, decode, then report and
  plot with the trained model bound to the global name \<open>model\<close>.  The pause between
  decoding and reporting and the console output are left out.
\<close>

record run =
  run_model :: GaussianHMM
  run_scaler :: StandardScaler
  run_states :: "nat list"
  run_report :: "(nat \<times> float64 list list \<times> nat) list"
  run_figure :: figure

definition main :: "estimator \<Rightarrow> density \<Rightarrow> dataframe \<Rightarrow> error + run" where
  "main fit log_density csv =
     (case load_and_preprocess_data csv of Inl e \<Rightarrow> Inl e | Inr data \<Rightarrow>
     (case train_hmm fit data 4 of Inl e \<Rightarrow> Inl e | Inr (m, scaler) \<Rightarrow>
     (case predict_states log_density m data scaler of Inl e \<Rightarrow> Inl e | Inr states \<Rightarrow>
     (case analyze_states \<lparr>model = Some m\<rparr> data states of Inl e \<Rightarrow> Inl e | Inr report \<Rightarrow>
     (case plot_results \<lparr>model = Some m\<rparr> data states of Inl e \<Rightarrow> Inl e | Inr fig \<Rightarrow>
      Inr \<lparr>run_model = m, run_scaler = scaler, run_states = states,
           run_report = report, run_figure = fig\<rparr>)))))"

section \<open>The features as the specification words them\<close>

text \<open>
  The specification defines the derived columns row by row.  These two functions follow
  its words, to be compared with the columns the code computes: the fractional change
  of a column against the previous row, undefined at the first row, and the standard
  deviation of the 24 most recent returns, undefined while one of them is.
\<close>

definition spec_returns :: "float64 list \<Rightarrow> nat \<Rightarrow> float64" where
  "spec_returns close t =
     (if t = 0 then NaN else fsub (fdiv (close ! t) (close ! (t - 1))) (Fin 1))"

definition spec_volatility :: "float64 list \<Rightarrow> nat \<Rightarrow> float64" where
  "spec_volatility returns t =
     (let window = map (\<lambda>k. returns ! (t - 23 + k)) [0..<24]
      in if 23 \<le> t \<and> list_all isfinite window
         then Fin (sample_std (map the_real window)) else NaN)"

text \<open>
  Example tables.  \<open>candles\<close> builds a table of hourly candles from the close and volume
  columns, with the open, high and low prices at 1.
\<close>

definition candles :: "real list \<Rightarrow> real list \<Rightarrow> dataframe" where
  "candles cl vo =
     \<lparr>index = map (\<lambda>i. Fin (real i)) [0..<length cl],
      columns = [(''datetime'', map (\<lambda>i. Fin (3600 * real i)) [0..<length cl]),
                 (''open'', replicate (length cl) (Fin 1)),
                 (''high'', replicate (length cl) (Fin 1)),
                 (''low'', replicate (length cl) (Fin 1)),
                 (''close'', map Fin cl),
                 (''volume'', map Fin vo)]\<rparr>"

definition flat_candles :: dataframe where
  "flat_candles = candles (replicate 25 1) (replicate 25 1)"

text \<open>No trade in the hour before the last one: the volume of row 23 is zero.\<close>

definition zero_volume_candles :: dataframe where
  "zero_volume_candles = candles (replicate 25 1) (replicate 23 1 @ [0, 5])"

text \<open>
  A stand-in for the estimator and for the emission density, to run the pipeline on
  examples: the estimator returns the uniform model of the requested size, the density
  falls with the squared distance to the mean of the state.
\<close>

definition uniform_model :: "nat \<Rightarrow> GaussianHMM" where
  "uniform_model k =
     \<lparr>n_components = k,
      startprob = replicate k (1 / real k),
      transmat = replicate k (replicate k (1 / real k)),
      means = replicate k [0, 0, 0],
      covars = replicate k [[1, 0, 0], [0, 1, 0], [0, 0, 1]]\<rparr>"

definition uniform_fit :: estimator where
  "uniform_fit params X = Inr (uniform_model (hp_n_components params))"

definition distance_density :: density where
  "distance_density m i x =
     Fin (- sum_list (map2 (\<lambda>a b. (the_real a - b)\<^sup>2) x (means m ! i)) / 2)"

definition two_feature_rows :: dataframe where
  "two_feature_rows =
     \<lparr>index = [Fin 0, Fin 3600],
      columns = [(''close'', [Fin 1, Fin 3]), (''Returns'', [Fin 0, Fin 2]),
                 (''Volatility'', [Fin 1, Fin 3]), (''Volume_Change'', [Fin 0, Fin 0])]\<rparr>"


text \<open>The feature table left of \<open>zero_volume_candles\<close>.\<close>

definition zero_volume_features :: dataframe where
  "zero_volume_features =
     \<lparr>index = [Fin 86400],
      columns = [(''open'', [Fin 1]), (''high'', [Fin 1]), (''low'', [Fin 1]),
                 (''close'', [Fin 1]), (''volume'', [Fin 5]), (''Returns'', [Fin 0]),
                 (''Volatility'', [Fin 0]), (''Volume_Change'', [PInf])]\<rparr>"

text \<open>
  Twenty-four candles and the table left of them; twenty-five candles without the open,
  high and low columns and the table left of them.
\<close>

definition day_candles :: dataframe where
  "day_candles = candles (replicate 24 1) (replicate 24 1)"

definition empty_features :: dataframe where
  "empty_features =
     \<lparr>index = [],
      columns = [(''open'', []), (''high'', []), (''low'', []), (''close'', []),
                 (''volume'', []), (''Returns'', []), (''Volatility'', []),
                 (''Volume_Change'', [])]\<rparr>"

definition bare_candles :: dataframe where
  "bare_candles =
     \<lparr>index = map (\<lambda>i. Fin (real i)) [0..<25],
      columns = [(''datetime'', map (\<lambda>i. Fin (3600 * real i)) [0..<25]),
                 (''close'', replicate 25 (Fin 1)),
                 (''volume'', replicate 25 (Fin 1))]\<rparr>"

definition bare_features :: dataframe where
  "bare_features =
     \<lparr>index = [Fin 86400],
      columns = [(''close'', [Fin 1]), (''volume'', [Fin 1]), (''Returns'', [Fin 0]),
                 (''Volatility'', [Fin 0]), (''Volume_Change'', [Fin 0])]\<rparr>"

section \<open>Series and data frame lemmas\<close>

lemma fdiv_NaN_right: "fdiv x NaN = NaN"
  by (cases x) simp_all

lemma ffill_from_id: "list_all (\<lambda>x. \<not> isnan x) xs \<Longrightarrow> ffill_from p xs = xs"
  by (induction xs arbitrary: p) auto

lemma length_shift: "length (shift xs) = length xs"
  by (simp add: shift_def)

lemma length_ffill_from: "length (ffill_from p xs) = length xs"
  by (induction xs arbitrary: p) auto

lemma length_pct_change: "length (pct_change xs) = length xs"
  by (simp add: pct_change_def ffill_def length_shift length_ffill_from Let_def)

lemma nth_shift: "t < length xs \<Longrightarrow> shift xs ! t = (if t = 0 then NaN else xs ! (t - 1))"
  by (cases t) (auto simp: shift_def nth_butlast)

lemma nth_pct_change:
  assumes "list_all (\<lambda>x. \<not> isnan x) xs" "t < length xs"
  shows "pct_change xs ! t = (if t = 0 then NaN else fsub (fdiv (xs ! t) (xs ! (t - 1))) (Fin 1))"
  using assms by (simp add: pct_change_def ffill_def ffill_from_id length_shift nth_shift fdiv_NaN_right Let_def)

lemma length_rolling_std: "length (rolling_std w xs) = length xs"
  by (simp add: rolling_std_def)

lemma nth_rolling_std:
  "t < length xs \<Longrightarrow> rolling_std w xs ! t = window_std w (take (t + 1 - (t + 1 - w)) (drop (t + 1 - w) xs))"
  by (simp add: rolling_std_def)

lemma take_drop_window:
  assumes "t < length xs" "w \<le> t + 1"
  shows "take (t + 1 - (t + 1 - w)) (drop (t + 1 - w) xs) = map (\<lambda>k. xs ! (t + 1 - w + k)) [0..<w]"
  using assms by (auto intro!: nth_equalityI)

lemma window_std_short: "length win < w \<Longrightarrow> window_std w win = NaN"
proof -
  assume a: "length win < w"
  have "length (filter isfinite win) < w"
    by (rule le_less_trans [OF length_filter_le a])
  then show ?thesis by (simp add: window_std_def Let_def)
qed

lemma filter_all_id: "list_all P xs \<Longrightarrow> filter P xs = xs"
  by (induction xs) auto

lemma filter_not_all_shorter: "\<not> list_all P xs \<Longrightarrow> length (filter P xs) < length xs"
  by (induction xs) (auto simp: less_Suc_eq_le)

lemma window_std_full:
  assumes "length win = w" "1 < w"
  shows "window_std w win = (if list_all isfinite win then Fin (sample_std (map the_real win)) else NaN)"
proof (cases "list_all isfinite win")
  case True
  then show ?thesis using assms by (simp add: window_std_def filter_all_id)
next
  case False
  then have "length (filter isfinite win) < w"
    using filter_not_all_shorter [of isfinite win] assms by simp
  with False show ?thesis by (simp add: window_std_def Let_def)
qed

lemma nth_rolling_std_24:
  assumes "t < length xs"
  shows "rolling_std 24 xs ! t = spec_volatility xs t"
proof (cases "23 \<le> t")
  case True
  define win where "win = map (\<lambda>k. xs ! (t - 23 + k)) [0..<24]"
  have "take (t + 1 - (t + 1 - 24)) (drop (t + 1 - 24) xs) = map (\<lambda>k. xs ! (t + 1 - 24 + k)) [0..<24]"
    using True assms by (intro take_drop_window) auto
  also have "\<dots> = win"
    by (simp add: win_def)
  finally have "rolling_std 24 xs ! t = window_std 24 win"
    by (simp only: nth_rolling_std [OF assms])
  also have "\<dots> = (if list_all isfinite win then Fin (sample_std (map the_real win)) else NaN)"
    by (rule window_std_full) (simp_all add: win_def)
  also have "\<dots> = spec_volatility xs t"
    using True unfolding spec_volatility_def win_def Let_def by simp
  finally show ?thesis .
next
  case False
  then have "length (take (t + 1 - (t + 1 - 24)) (drop (t + 1 - 24) xs)) < 24"
    by simp
  then show ?thesis
    using False by (simp only: nth_rolling_std [OF assms] window_std_short) (simp add: spec_volatility_def)
qed

lemma getitem_setitem:
  "getitem (setitem df k c) k' = (if k' = k then Inr c else getitem df k')"
  by (simp add: getitem_def setitem_def update_conv')

lemma nrows_setitem: "nrows (setitem df k c) = nrows df"
  by (simp add: nrows_def setitem_def)

lemma add_features_eq:
  assumes "getitem df ''close'' = Inr c" "getitem df ''volume'' = Inr v"
  shows "add_features df =
    Inr (setitem (setitem (setitem df ''Returns'' (pct_change c))
           ''Volatility'' (rolling_std 24 (pct_change c))) ''Volume_Change'' (pct_change v))"
  using assms by (simp add: add_features_def getitem_setitem Let_def)


lemma getitem_length:
  assumes "well_formed df" "getitem df k = Inr c"
  shows "length c = nrows df"
proof -
  from assms(2) have "map_of (columns df) k = Some c"
    by (simp add: getitem_def split: option.splits)
  then have "(k, c) \<in> set (columns df)" by (rule map_of_SomeD)
  then have "c \<in> set (map snd (columns df))" by force
  with assms(1) show ?thesis by (auto simp: well_formed_def)
qed

lemma getitem_in_columns:
  assumes "getitem df k = Inr c"
  shows "c \<in> set (map snd (columns df))"
proof -
  from assms have "map_of (columns df) k = Some c"
    by (simp add: getitem_def split: option.splits)
  then have "(k, c) \<in> set (columns df)" by (rule map_of_SomeD)
  then show ?thesis by force
qed

lemma parse_index_eq:
  assumes "getitem df ''datetime'' = Inr ts" "list_all in_timestamp_range ts"
  shows "parse_index df = Inr (df\<lparr>index := ts, columns := AList.delete ''datetime'' (columns df)\<rparr>)"
proof -
  from assms(1) have m: "map_of (columns df) ''datetime'' = Some ts"
    by (simp add: getitem_def split: option.splits)
  show ?thesis
    using assms m
    by (simp add: parse_index_def to_datetime_def set_index_def setitem_def update_conv' delete_update_same)
qed

lemma getitem_delete:
  "getitem (df\<lparr>index := ix, columns := AList.delete k (columns df)\<rparr>) k' =
     (if k' = k then Inl (KeyError k') else getitem df k')"
  by (simp add: getitem_def delete_conv')

lemma set_snd_update: "set (map snd (AList.update k v al)) \<subseteq> insert v (set (map snd al))"
  by (induction al) auto

lemma set_snd_delete: "set (map snd (AList.delete k al)) \<subseteq> set (map snd al)"
  by (induction al) auto

lemma filter_ge_upt: "filter (\<lambda>i. a \<le> i) [0..<n] = [a..<n]"
proof (induction n)
  case 0
  then show ?case by simp
next
  case (Suc n)
  then show ?case by (cases "a \<le> n") (auto simp: not_le)
qed

lemma getitem_take_rows:
  "getitem (take_rows keep df) k =
     (case getitem df k of Inl e \<Rightarrow> Inl e | Inr c \<Rightarrow> Inr (map ((!) c) keep))"
proof -
  have "map_of (map (\<lambda>(label, c). (label, map ((!) c) keep)) (columns df)) k
        = map_option (\<lambda>c. map ((!) c) keep) (map_of (columns df) k)"
    by (induction "columns df" arbitrary: df) (auto simp: map_of_map)
  then show ?thesis
    by (simp add: getitem_def take_rows_def split: option.splits)
qed

lemma nrows_take_rows: "nrows (take_rows keep df) = length keep"
  by (simp add: nrows_def take_rows_def)


lemma isfinite_pct:
  "isfinite a \<Longrightarrow> isfinite b \<Longrightarrow> b \<noteq> Fin 0 \<Longrightarrow> isfinite (fsub (fdiv a b) (Fin 1))"
  by (cases a; cases b) auto

lemma isfinite_not_nan: "isfinite x \<Longrightarrow> \<not> isnan x"
  by (cases x) auto

lemma isfinite_not_inf: "isfinite x \<Longrightarrow> \<not> isinf x"
  by (cases x) auto

lemma all_finite_no_nan: "list_all isfinite xs \<Longrightarrow> list_all (\<lambda>x. \<not> isnan x) xs"
  by (induction xs) (auto simp: isfinite_not_nan)

lemma pct_change_head_nan:
  assumes "list_all (\<lambda>x. \<not> isnan x) xs" "0 < length xs"
  shows "pct_change xs ! 0 = NaN"
  using nth_pct_change [OF assms(1), of 0] assms(2) by simp

lemma pct_change_finite:
  assumes "list_all isfinite xs" "Fin 0 \<notin> set xs" "0 < t" "t < length xs"
  shows "isfinite (pct_change xs ! t)"
proof -
  have a: "isfinite (xs ! t)" and b: "isfinite (xs ! (t - 1))"
    using assms by (auto simp: list_all_length)
  have "xs ! (t - 1) \<in> set xs" using assms by simp
  with assms(2) have c: "xs ! (t - 1) \<noteq> Fin 0" by metis
  have "pct_change xs ! t = fsub (fdiv (xs ! t) (xs ! (t - 1))) (Fin 1)"
    using nth_pct_change [OF all_finite_no_nan [OF assms(1)] assms(4)] assms(3) by simp
  with a b c show ?thesis by (simp add: isfinite_pct)
qed

lemma spec_volatility_nan:
  assumes "t < 24" "isnan (rs ! 0)"
  shows "spec_volatility rs t = NaN"
proof (cases "t = 23")
  case True
  have "rs ! 0 \<in> set (map (\<lambda>k. rs ! (t - 23 + k)) [0..<24])"
    using True by (auto simp: image_iff intro!: bexI [of _ 0])
  moreover have "\<not> isfinite (rs ! 0)"
    using assms(2) isfinite_not_nan by blast
  ultimately have "\<not> list_all isfinite (map (\<lambda>k. rs ! (t - 23 + k)) [0..<24])"
    unfolding list_all_iff by blast
  then show ?thesis by (simp add: spec_volatility_def Let_def)
next
  case False
  with assms(1) have "\<not> 23 \<le> t" by simp
  then show ?thesis by (simp add: spec_volatility_def Let_def)
qed

lemma spec_volatility_finite:
  assumes "24 \<le> t" "\<forall>k. 0 < k \<and> k \<le> t \<longrightarrow> isfinite (rs ! k)"
  shows "isfinite (spec_volatility rs t)"
proof -
  have "list_all isfinite (map (\<lambda>k. rs ! (t - 23 + k)) [0..<24])"
    using assms by (auto simp: list_all_iff)
  then show ?thesis using assms(1) by (simp add: spec_volatility_def Let_def)
qed


lemma load_eq:
  assumes "getitem df ''datetime'' = Inr ts" "list_all in_timestamp_range ts"
    and "getitem df ''close'' = Inr close" "getitem df ''volume'' = Inr volume"
  shows "load_and_preprocess_data df =
    Inr (dropna (setitem (setitem (setitem
           (df\<lparr>index := ts, columns := AList.delete ''datetime'' (columns df)\<rparr>)
           ''Returns'' (pct_change close))
           ''Volatility'' (rolling_std 24 (pct_change close)))
           ''Volume_Change'' (pct_change volume)))"
proof -
  let ?df1 = "df\<lparr>index := ts, columns := AList.delete ''datetime'' (columns df)\<rparr>"
  have "getitem ?df1 ''close'' = Inr close" "getitem ?df1 ''volume'' = Inr volume"
    using assms(3,4) by (simp_all add: getitem_delete)
  then show ?thesis
    by (simp add: load_and_preprocess_data_def parse_index_eq [OF assms(1,2)] add_features_eq)
qed

lemma columns_setitem3:
  "set (map snd (columns (setitem (setitem (setitem df k1 c1) k2 c2) k3 c3)))
     \<subseteq> {c1, c2, c3} \<union> set (map snd (columns df))"
proof -
  have "set (map snd (AList.update k3 c3 (AList.update k2 c2 (AList.update k1 c1 (columns df)))))
      \<subseteq> insert c3 (insert c2 (insert c1 (set (map snd (columns df)))))"
    using set_snd_update [of k3 c3 "AList.update k2 c2 (AList.update k1 c1 (columns df))"]
      set_snd_update [of k2 c2 "AList.update k1 c1 (columns df)"]
      set_snd_update [of k1 c1 "columns df"]
    by blast
  then show ?thesis by (auto simp: setitem_def)
qed

lemma row_complete_iff:
  "row_complete df i \<longleftrightarrow> (\<forall>c \<in> set (map snd (columns df)). \<not> isnan (c ! i))"
  by (simp add: row_complete_def list_all_iff)

lemma dropna_from:
  assumes "\<forall>i < nrows df. row_complete df i \<longleftrightarrow> a \<le> i"
  shows "dropna df = take_rows [a..<nrows df] df"
proof -
  have "filter (row_complete df) [0..<nrows df] = filter (\<lambda>i. a \<le> i) [0..<nrows df]"
    using assms by (intro filter_cong) auto
  then show ?thesis by (simp add: dropna_def filter_ge_upt)
qed

lemma feature_values_eq:
  assumes "getitem df ''Returns'' = Inr r" "getitem df ''Volatility'' = Inr v"
    "getitem df ''Volume_Change'' = Inr c"
  shows "feature_values df = Inr (map (\<lambda>i. [r ! i, v ! i, c ! i]) [0..<nrows df])"
  using assms by (simp add: feature_values_def)

lemma no_nan_or_inf:
  assumes "\<forall>row \<in> set X. \<forall>x \<in> set row. isfinite x"
  shows "\<not> has_nan_or_inf X"
  using assms isfinite_not_nan isfinite_not_inf
  by (auto simp: has_nan_or_inf_def list_ex_iff)




lemma nth_ffill_from:
  "t < length xs \<Longrightarrow> \<not> isnan (xs ! t) \<Longrightarrow> ffill_from p xs ! t = xs ! t"
proof (induction xs arbitrary: p t)
  case Nil
  then show ?case by simp
next
  case (Cons x xs)
  then show ?case by (cases t) auto
qed

lemma length_ffill: "length (ffill xs) = length xs"
  by (simp add: ffill_def length_ffill_from)

lemma pct_change_spec:
  assumes "t < length xs" "t = 0 \<or> \<not> isnan (xs ! t) \<and> \<not> isnan (xs ! (t - 1))"
  shows "pct_change xs ! t = spec_returns xs t"
proof (cases "t = 0")
  case True
  then show ?thesis
    using assms(1)
    by (simp add: pct_change_def ffill_def Let_def length_shift length_ffill_from nth_shift
        fdiv_NaN_right spec_returns_def)
next
  case False
  with assms have "ffill xs ! t = xs ! t" "ffill xs ! (t - 1) = xs ! (t - 1)"
    by (simp_all add: ffill_def nth_ffill_from)
  with False assms(1) show ?thesis
    by (simp add: pct_change_def Let_def length_shift length_ffill nth_shift spec_returns_def)
qed

subsection \<open>The example tables\<close>

lemma upt_25:
  "[0..<25] = [0, 1, 2, 3, 4, 5, 6, 7, 8, 9, 10, 11, 12, 13, 14, 15, 16, 17, 18, 19, 20, 21, 22, 23, 24]"
  by (simp add: upt_rec)

lemma candles_getitem:
  "getitem (candles cl vo) ''datetime'' = Inr (map (\<lambda>i. Fin (3600 * real i)) [0..<length cl])"
  "getitem (candles cl vo) ''close'' = Inr (map Fin cl)"
  "getitem (candles cl vo) ''volume'' = Inr (map Fin vo)"
  by (simp_all add: candles_def getitem_def)

lemma candles_in_range:
  "length cl \<le> 1000000 \<Longrightarrow>
     list_all in_timestamp_range (map (\<lambda>i. Fin (3600 * real i)) [0..<length cl])"
  by (auto simp: list_all_iff)

lemma candles_well_formed: "length vo = length cl \<Longrightarrow> well_formed (candles cl vo)"
  by (simp add: candles_def well_formed_def nrows_def)

lemma candles_nrows: "nrows (candles cl vo) = length cl"
  by (simp add: candles_def nrows_def)

lemma candles_finite: "list_all (list_all isfinite) (map snd (columns (candles cl vo)))"
  by (simp add: candles_def list_all_iff)

lemma pct_change_flat: "pct_change (map Fin (replicate 25 1)) = NaN # replicate 24 (Fin 0)"
  by (simp add: pct_change_def ffill_def shift_def eval_nat_numeral)

lemma pct_change_zero_volume:
  "pct_change (map Fin (replicate 23 1 @ [0, 5])) = NaN # replicate 22 (Fin 0) @ [Fin (- 1), PInf]"
  by (simp add: pct_change_def ffill_def shift_def eval_nat_numeral)

lemma rolling_std_flat:
  "rolling_std 24 (NaN # replicate 24 (Fin 0)) = replicate 24 NaN @ [Fin 0]"
  by (simp add: rolling_std_def upt_25 window_std_def sample_std_def eval_nat_numeral)

lemma load_zero_volume_candles:
  "load_and_preprocess_data zero_volume_candles =
     Inr (dropna \<lparr>index = map (\<lambda>i. Fin (3600 * real i)) [0..<25],
       columns = [(''open'', replicate 25 (Fin 1)), (''high'', replicate 25 (Fin 1)),
         (''low'', replicate 25 (Fin 1)), (''close'', replicate 25 (Fin 1)),
         (''volume'', replicate 23 (Fin 1) @ [Fin 0, Fin 5]),
         (''Returns'', NaN # replicate 24 (Fin 0)),
         (''Volatility'', replicate 24 NaN @ [Fin 0]),
         (''Volume_Change'', NaN # replicate 22 (Fin 0) @ [Fin (- 1), PInf])]\<rparr>)"
  unfolding zero_volume_candles_def
  apply (subst load_eq [OF candles_getitem(1) candles_in_range candles_getitem(2,3)])
   apply simp
  apply (simp only: pct_change_flat rolling_std_flat pct_change_zero_volume)
  apply (simp add: candles_def setitem_def)
  done

section \<open>The feature table\<close>

text \<open>
  Claim C1, as amended.  For every well-formed table of \<open>N \<ge> 24\<close> candles whose columns
  hold only finite numbers, whose timestamps are representable and whose close and
  volume columns hold no zero, \<open>load_and_preprocess_data\<close> returns a table of exactly
  \<open>N - 24\<close> rows, and no entry of its feature matrix (Returns, Volatility,
  Volume_Change) is NaN or an infinity.  Finite input alone is not enough: a zero close
  or volume makes the next fractional change a division by zero.
\<close>

theorem feature_table_finite_and_counted:
  assumes wf: "well_formed df"
    and n: "24 \<le> nrows df"
    and fin: "\<forall>c \<in> set (map snd (columns df)). list_all isfinite c"
    and ts: "getitem df ''datetime'' = Inr ts" "list_all in_timestamp_range ts"
    and cl: "getitem df ''close'' = Inr close" "Fin 0 \<notin> set close"
    and vo: "getitem df ''volume'' = Inr volume" "Fin 0 \<notin> set volume"
  shows "\<exists>out X. load_and_preprocess_data df = Inr out \<and> nrows out = nrows df - 24 \<and>
           feature_values out = Inr X \<and> length X = nrows out \<and> \<not> has_nan_or_inf X"
proof -
  define N where "N = nrows df"
  define R where "R = pct_change close"
  define V where "V = rolling_std 24 R"
  define C where "C = pct_change volume"
  define df1 where "df1 = df\<lparr>index := ts, columns := AList.delete ''datetime'' (columns df)\<rparr>"
  define df2 where
    "df2 = setitem (setitem (setitem df1 ''Returns'' R) ''Volatility'' V) ''Volume_Change'' C"
  define out where "out = take_rows [24..<N] df2"
  have len_ts: "length ts = N" and len_cl: "length close = N" and len_vo: "length volume = N"
    using getitem_length [OF wf] ts(1) cl(1) vo(1) by (simp_all add: N_def)
  have fin_cl: "list_all isfinite close" and fin_vo: "list_all isfinite volume"
    using fin getitem_in_columns [OF cl(1)] getitem_in_columns [OF vo(1)] by auto
  have len_R: "length R = N" and len_C: "length C = N" and len_V: "length V = N"
    by (simp_all add: R_def C_def V_def length_pct_change length_rolling_std len_cl len_vo)
  have N2: "nrows df2 = N"
    by (simp add: df2_def df1_def nrows_setitem) (simp add: nrows_def len_ts)
  have load: "load_and_preprocess_data df = Inr (dropna df2)"
    unfolding df2_def df1_def R_def V_def C_def
    by (rule load_eq [OF ts cl(1) vo(1)])
  have R0: "isnan (R ! 0)"
    using pct_change_head_nan [OF all_finite_no_nan [OF fin_cl]] n len_cl
    by (simp add: R_def N_def)
  have Rfin: "isfinite (R ! t)" if "0 < t" "t < N" for t
    unfolding R_def using that len_cl by (intro pct_change_finite [OF fin_cl cl(2)]) auto
  have Cfin: "isfinite (C ! t)" if "0 < t" "t < N" for t
    unfolding C_def using that len_vo by (intro pct_change_finite [OF fin_vo vo(2)]) auto
  have Vt: "V ! t = spec_volatility R t" if "t < N" for t
    unfolding V_def using that len_R by (intro nth_rolling_std_24) simp
  have Vnan: "isnan (V ! t)" if "t < 24" "t < N" for t
    using spec_volatility_nan [OF that(1) R0] Vt [OF that(2)] by simp
  have Vfin: "isfinite (V ! t)" if "24 \<le> t" "t < N" for t
  proof -
    have "\<forall>k. 0 < k \<and> k \<le> t \<longrightarrow> isfinite (R ! k)"
      using Rfin that(2) by auto
    from spec_volatility_finite [OF that(1) this] Vt [OF that(2)] show ?thesis by simp
  qed
  have gR: "getitem df2 ''Returns'' = Inr R" and gV: "getitem df2 ''Volatility'' = Inr V"
    and gC: "getitem df2 ''Volume_Change'' = Inr C"
    by (simp_all add: df2_def getitem_setitem)
  have cols: "set (map snd (columns df2)) \<subseteq> {R, V, C} \<union> set (map snd (columns df))"
  proof -
    have "set (map snd (columns df1)) \<subseteq> set (map snd (columns df))"
      using set_snd_delete [of "''datetime''" "columns df"] by (simp add: df1_def)
    then show ?thesis
      using columns_setitem3 [of df1 "''Returns''" R "''Volatility''" V "''Volume_Change''" C]
      unfolding df2_def by blast
  qed
  have complete: "row_complete df2 i \<longleftrightarrow> 24 \<le> i" if i: "i < N" for i
  proof
    assume "row_complete df2 i"
    moreover have "V \<in> set (map snd (columns df2))"
      by (rule getitem_in_columns [OF gV])
    ultimately have "\<not> isnan (V ! i)"
      unfolding row_complete_iff by blast
    then show "24 \<le> i" using Vnan [OF _ i] by (cases "24 \<le> i") auto
  next
    assume ge: "24 \<le> i"
    show "row_complete df2 i"
      unfolding row_complete_iff
    proof
      fix c assume "c \<in> set (map snd (columns df2))"
      with cols consider "c = R" | "c = V" | "c = C" | "c \<in> set (map snd (columns df))"
        by blast
      then have "isfinite (c ! i)"
      proof cases
        case 1 then show ?thesis using Rfin [of i] ge i by simp
      next
        case 2 then show ?thesis using Vfin [OF ge i] by simp
      next
        case 3 then show ?thesis using Cfin [of i] ge i by simp
      next
        case 4
        then have "list_all isfinite c" "length c = N"
          using fin wf by (auto simp: well_formed_def N_def)
        then show ?thesis using i by (simp add: list_all_length)
      qed
      then show "\<not> isnan (c ! i)" by (rule isfinite_not_nan)
    qed
  qed
  have drop: "dropna df2 = out"
    unfolding out_def using dropna_from [of df2 24] complete N2 by simp
  have rows: "nrows out = N - 24"
    by (simp add: out_def nrows_take_rows)
  define X where
    "X = map (\<lambda>i. [map ((!) R) [24..<N] ! i, map ((!) V) [24..<N] ! i, map ((!) C) [24..<N] ! i])
           [0..<nrows out]"
  have fv: "feature_values out = Inr X"
    unfolding X_def
    by (rule feature_values_eq) (simp_all add: out_def getitem_take_rows gR gV gC)
  have "\<forall>row \<in> set X. \<forall>x \<in> set row. isfinite x"
    using Rfin Vfin Cfin by (auto simp: X_def rows)
  then have "\<not> has_nan_or_inf X" by (rule no_nan_or_inf)
  moreover have "length X = nrows out" by (simp add: X_def)
  ultimately show ?thesis
    using load drop rows fv by (auto simp: N_def)
qed


text \<open>The theorem at the table of 25 flat candles: one row is left.\<close>

theorem feature_table_finite_and_counted_witness:
  "well_formed flat_candles \<and> 24 \<le> nrows flat_candles \<and>
   (\<exists>out X. load_and_preprocess_data flat_candles = Inr out \<and> nrows out = 1 \<and>
      feature_values out = Inr X \<and> length X = nrows out \<and> \<not> has_nan_or_inf X)"
proof -
  have wf: "well_formed flat_candles"
    by (simp add: flat_candles_def candles_well_formed)
  have n: "24 \<le> nrows flat_candles"
    by (simp add: flat_candles_def candles_nrows)
  have fin: "\<forall>c \<in> set (map snd (columns flat_candles)). list_all isfinite c"
    using candles_finite [of "replicate 25 1" "replicate 25 1"]
    by (simp add: flat_candles_def list_all_iff)
  have ts: "getitem flat_candles ''datetime'' =
      Inr (map (\<lambda>i. Fin (3600 * real i)) [0..<length (replicate 25 (1::real))])"
    by (simp add: flat_candles_def candles_getitem)
  have range: "list_all in_timestamp_range
      (map (\<lambda>i. Fin (3600 * real i)) [0..<length (replicate 25 (1::real))])"
    by (rule candles_in_range) simp
  have cl: "getitem flat_candles ''close'' = Inr (map Fin (replicate 25 1))"
    and vo: "getitem flat_candles ''volume'' = Inr (map Fin (replicate 25 1))"
    by (simp_all add: flat_candles_def candles_getitem)
  have nz: "Fin 0 \<notin> set (map Fin (replicate 25 1))"
    by simp
  from feature_table_finite_and_counted [OF wf n fin ts range cl nz vo nz]
  have "\<exists>out X. load_and_preprocess_data flat_candles = Inr out \<and>
      nrows out = nrows flat_candles - 24 \<and>
      feature_values out = Inr X \<and> length X = nrows out \<and> \<not> has_nan_or_inf X" .
  then show ?thesis
    using wf n by (simp add: flat_candles_def candles_nrows)
qed

text \<open>
  Claim C1 as stated fails: every column of \<open>zero_volume_candles\<close> is finite, and the one
  row of its feature table holds an infinite \<open>Volume_Change\<close>, the change from a volume
  of 0 to a volume of 5.  \<open>dropna\<close> removes missing values, not infinities.
\<close>

theorem zero_volume_row_survives:
  "list_all (list_all isfinite) (map snd (columns zero_volume_candles)) \<and>
   load_and_preprocess_data zero_volume_candles = Inr zero_volume_features \<and>
   getitem zero_volume_features ''Volume_Change'' = Inr [PInf]"
proof -
  have "list_all (list_all isfinite) (map snd (columns zero_volume_candles))"
    unfolding zero_volume_candles_def by (rule candles_finite)
  then show ?thesis
    by (simp add: load_zero_volume_candles dropna_def nrows_def upt_25 row_complete_def
        take_rows_def eval_nat_numeral nth_append nth_Cons' zero_volume_features_def
        getitem_def)
qed


text \<open>
  Claim C2.  On every well-formed table with a close and a volume column, lines 29 to 33
  store three columns of one value per row such that, at every row \<open>t\<close>: Returns is
  \<open>close[t] / close[t-1] - 1\<close> wherever both closes are present, and undefined at the
  first row; Volatility is the sample standard deviation of the 24 most recent values of
  the stored Returns column, undefined until 24 valid returns are available;
  Volume_Change is \<open>volume[t] / volume[t-1] - 1\<close> wherever both volumes are present, and
  undefined at the first row.  Volatility is computed from the Returns column stored
  just before it.
\<close>

theorem features_as_specified:
  assumes wf: "well_formed df"
    and cl: "getitem df ''close'' = Inr close"
    and vo: "getitem df ''volume'' = Inr volume"
  shows "\<exists>out R V C. add_features df = Inr out \<and>
           getitem out ''Returns'' = Inr R \<and> getitem out ''Volatility'' = Inr V \<and>
           getitem out ''Volume_Change'' = Inr C \<and>
           length R = nrows df \<and> length V = nrows df \<and> length C = nrows df \<and>
           (\<forall>t < nrows df.
              (t = 0 \<or> \<not> isnan (close ! t) \<and> \<not> isnan (close ! (t - 1))
                 \<longrightarrow> R ! t = spec_returns close t) \<and>
              V ! t = spec_volatility R t \<and>
              (t = 0 \<or> \<not> isnan (volume ! t) \<and> \<not> isnan (volume ! (t - 1))
                 \<longrightarrow> C ! t = spec_returns volume t))"
proof -
  define R where "R = pct_change close"
  define V where "V = rolling_std 24 R"
  define C where "C = pct_change volume"
  define out where
    "out = setitem (setitem (setitem df ''Returns'' R) ''Volatility'' V) ''Volume_Change'' C"
  have len_cl: "length close = nrows df" and len_vo: "length volume = nrows df"
    using getitem_length [OF wf] cl vo by simp_all
  have run: "add_features df = Inr out"
    unfolding out_def R_def V_def C_def by (rule add_features_eq [OF cl vo])
  have cols: "getitem out ''Returns'' = Inr R" "getitem out ''Volatility'' = Inr V"
    "getitem out ''Volume_Change'' = Inr C"
    by (simp_all add: out_def getitem_setitem)
  have lens: "length R = nrows df" "length V = nrows df" "length C = nrows df"
    by (simp_all add: R_def V_def C_def length_pct_change length_rolling_std len_cl len_vo)
  have rows: "(t = 0 \<or> \<not> isnan (close ! t) \<and> \<not> isnan (close ! (t - 1))
                 \<longrightarrow> R ! t = spec_returns close t) \<and>
              V ! t = spec_volatility R t \<and>
              (t = 0 \<or> \<not> isnan (volume ! t) \<and> \<not> isnan (volume ! (t - 1))
                 \<longrightarrow> C ! t = spec_returns volume t)" if "t < nrows df" for t
  proof (intro conjI impI)
    assume "t = 0 \<or> \<not> isnan (close ! t) \<and> \<not> isnan (close ! (t - 1))"
    then show "R ! t = spec_returns close t"
      unfolding R_def using that len_cl by (intro pct_change_spec) simp_all
  next
    show "V ! t = spec_volatility R t"
      unfolding V_def using that lens(1) by (intro nth_rolling_std_24) simp
  next
    assume "t = 0 \<or> \<not> isnan (volume ! t) \<and> \<not> isnan (volume ! (t - 1))"
    then show "C ! t = spec_returns volume t"
      unfolding C_def using that len_vo by (intro pct_change_spec) simp_all
  qed
  from run cols lens rows show ?thesis by blast
qed


text \<open>The theorem at the table of 25 flat candles.\<close>

theorem features_as_specified_witness:
  "well_formed flat_candles \<and>
   (\<exists>out R V C. add_features flat_candles = Inr out \<and>
      getitem out ''Returns'' = Inr R \<and> getitem out ''Volatility'' = Inr V \<and>
      getitem out ''Volume_Change'' = Inr C \<and>
      length R = 25 \<and> length V = 25 \<and> length C = 25 \<and>
      (\<forall>t < 25. R ! t = spec_returns (replicate 25 (Fin 1)) t \<and>
                  V ! t = spec_volatility R t \<and>
                  C ! t = spec_returns (replicate 25 (Fin 1)) t))"
proof -
  have wf: "well_formed flat_candles"
    by (simp add: flat_candles_def candles_well_formed)
  have cl: "getitem flat_candles ''close'' = Inr (replicate 25 (Fin 1))"
    and vo: "getitem flat_candles ''volume'' = Inr (replicate 25 (Fin 1))"
    by (simp_all add: flat_candles_def candles_getitem)
  have n: "nrows flat_candles = 25"
    by (simp add: flat_candles_def candles_nrows)
  show ?thesis
    using features_as_specified [OF wf cl vo] wf unfolding n by simp
qed


section \<open>Training\<close>

lemma has_nan_or_inf_iff:
  "has_nan_or_inf X \<longleftrightarrow> (\<exists>row \<in> set X. \<exists>x \<in> set row. \<not> isfinite x)"
proof -
  have "isnan x \<or> isinf x \<longleftrightarrow> \<not> isfinite x" for x by (cases x) auto
  then show ?thesis unfolding has_nan_or_inf_def list_ex_iff by blast
qed

lemma fit_transform_not_invalid_input: "fit_transform X \<noteq> Inl invalid_input"
  by (auto simp: fit_transform_def scaler_fit_def scaler_transform_def check_array_def
      invalid_input_def Let_def split: sum.splits if_splits)

lemma fit_transform_Inr:
  "fit_transform X = Inr (scaler, X_scaled) \<longleftrightarrow>
     scaler_fit X = Inr scaler \<and> scaler_transform scaler X = Inr X_scaled"
  by (auto simp: fit_transform_def split: sum.splits)

lemma upt_2: "[0..<2] = [0, 1]" by (simp add: upt_rec)
lemma upt_3: "[0..<3] = [0, 1, 2]" by (simp add: upt_rec)

lemma two_feature_rows_values:
  "feature_values two_feature_rows = Inr [[Fin 0, Fin 1, Fin 0], [Fin 2, Fin 3, Fin 0]]"
  by (simp add: feature_values_def getitem_def two_feature_rows_def nrows_def upt_2)

lemma two_rows_fit:
  "scaler_fit [[Fin 0, Fin 1, Fin 0], [Fin 2, Fin 3, Fin 0]] =
     Inr \<lparr>scaler_mean = [Fin 1, Fin 2, Fin 0], scaler_var = [Fin 1, Fin 1, Fin 0],
          scaler_scale = [Fin 1, Fin 1, Fin 1]\<rparr>"
  by (simp add: scaler_fit_def check_array_def upt_3 column_def nanmean_def nanvar_def)

lemma two_rows_transform:
  "scaler_transform \<lparr>scaler_mean = [Fin 1, Fin 2, Fin 0], scaler_var = [Fin 1, Fin 1, Fin 0],
          scaler_scale = [Fin 1, Fin 1, Fin 1]\<rparr> [[Fin 0, Fin 1, Fin 0], [Fin 2, Fin 3, Fin 0]] =
     Inr [[Fin (- 1), Fin (- 1), Fin 0], [Fin 1, Fin 1, Fin 0]]"
  by (simp add: scaler_transform_def check_array_def)

lemma two_rows_train:
  "train_hmm uniform_fit two_feature_rows 4 =
     Inr (uniform_model 4,
          \<lparr>scaler_mean = [Fin 1, Fin 2, Fin 0], scaler_var = [Fin 1, Fin 1, Fin 0],
           scaler_scale = [Fin 1, Fin 1, Fin 1]\<rparr>)"
  by (simp add: train_hmm_def two_feature_rows_values has_nan_or_inf_def fit_transform_def
      two_rows_fit two_rows_transform uniform_fit_def)

lemma zero_volume_features_values:
  "feature_values zero_volume_features = Inr [[Fin 0, Fin 0, PInf]]"
  by (simp add: feature_values_def getitem_def zero_volume_features_def nrows_def)

text \<open>
  Claim C5.  When the feature matrix of the table holds a NaN or an infinity,
  \<open>train_hmm\<close> raises the error of its input check (in the source a \<open>ValueError\<close> with
  the message kept in \<open>invalid_input\<close>), whatever the estimator: nothing is normalised
  or fitted.  When every entry is finite the check passes: the result is that of
  normalising and fitting, and the scaler never raises that error.
\<close>

theorem nan_or_inf_rejected_before_fit:
  assumes "feature_values data = Inr X"
  shows "((\<exists>row \<in> set X. \<exists>x \<in> set row. \<not> isfinite x) \<longrightarrow>
            train_hmm fit data k = Inl invalid_input) \<and>
         ((\<forall>row \<in> set X. \<forall>x \<in> set row. isfinite x) \<longrightarrow>
            fit_transform X \<noteq> Inl invalid_input \<and>
            train_hmm fit data k =
              (case fit_transform X of
                 Inl e \<Rightarrow> Inl e
               | Inr (scaler, X_scaled) \<Rightarrow>
                   (case fit \<lparr>hp_n_components = k, hp_covariance_type = ''full'',
                              hp_n_iter = 200, hp_tol = 1 / 100, hp_random_state = 42\<rparr>
                           X_scaled of
                      Inl e \<Rightarrow> Inl e
                    | Inr m \<Rightarrow> Inr (m, scaler))))"
  using assms fit_transform_not_invalid_input [of X]
  by (auto simp: train_hmm_def has_nan_or_inf_iff split: sum.splits prod.splits)


text \<open>
  The theorem at two tables: the one with the infinite volume change is rejected, the
  finite one is normalised and fitted.
\<close>

theorem nan_or_inf_rejected_before_fit_witness:
  "train_hmm uniform_fit zero_volume_features 4 = Inl invalid_input \<and>
   train_hmm uniform_fit two_feature_rows 4 =
     (case fit_transform [[Fin 0, Fin 1, Fin 0], [Fin 2, Fin 3, Fin 0]] of
        Inl e \<Rightarrow> Inl e
      | Inr (scaler, X_scaled) \<Rightarrow>
          (case uniform_fit \<lparr>hp_n_components = 4, hp_covariance_type = ''full'',
                            hp_n_iter = 200, hp_tol = 1 / 100, hp_random_state = 42\<rparr>
                  X_scaled of
             Inl e \<Rightarrow> Inl e
           | Inr m \<Rightarrow> Inr (m, scaler)))"
  using nan_or_inf_rejected_before_fit [OF zero_volume_features_values, of uniform_fit 4]
    nan_or_inf_rejected_before_fit [OF two_feature_rows_values, of uniform_fit 4]
  by simp

text \<open>
  Claim C3.  Whenever \<open>train_hmm\<close> returns a model and a scaler for a table, the scaler
  is the one fitted on the feature matrix of that table, the model is the estimator's
  result on the matrix standardised with it, and \<open>predict_states\<close> on the same table
  with the returned scaler decodes exactly that standardised matrix.
\<close>

theorem decoding_reuses_fitted_scaler:
  assumes "train_hmm fit data k = Inr (m, scaler)"
  shows "\<exists>X X_scaled.
           feature_values data = Inr X \<and> scaler_fit X = Inr scaler \<and>
           scaler_transform scaler X = Inr X_scaled \<and>
           fit \<lparr>hp_n_components = k, hp_covariance_type = ''full'', hp_n_iter = 200,
                hp_tol = 1 / 100, hp_random_state = 42\<rparr> X_scaled = Inr m \<and>
           predict_states log_density m data scaler = hmm_predict log_density m X_scaled"
  using assms
  by (auto simp: train_hmm_def predict_states_def fit_transform_Inr
      split: sum.splits prod.splits if_splits)



text \<open>The theorem at the two-row table with the stand-in estimator.\<close>

theorem decoding_reuses_fitted_scaler_witness:
  "\<exists>X X_scaled.
     feature_values two_feature_rows = Inr X \<and>
     scaler_fit X = Inr \<lparr>scaler_mean = [Fin 1, Fin 2, Fin 0],
                          scaler_var = [Fin 1, Fin 1, Fin 0],
                          scaler_scale = [Fin 1, Fin 1, Fin 1]\<rparr> \<and>
     scaler_transform \<lparr>scaler_mean = [Fin 1, Fin 2, Fin 0],
                        scaler_var = [Fin 1, Fin 1, Fin 0],
                        scaler_scale = [Fin 1, Fin 1, Fin 1]\<rparr> X = Inr X_scaled \<and>
     predict_states distance_density (uniform_model 4) two_feature_rows
       \<lparr>scaler_mean = [Fin 1, Fin 2, Fin 0], scaler_var = [Fin 1, Fin 1, Fin 0],
        scaler_scale = [Fin 1, Fin 1, Fin 1]\<rparr> =
     hmm_predict distance_density (uniform_model 4) X_scaled"
  using decoding_reuses_fitted_scaler [OF two_rows_train, of distance_density]
  by blast

section \<open>Normalisation of a constant column\<close>

lemma check_array_finite:
  assumes "X \<noteq> []" "\<forall>row \<in> set X. list_all isfinite row"
  shows "check_array X = Inr ()"
proof -
  have "\<not> list_ex (list_ex isinf) X"
    using assms(2) isfinite_not_inf by (auto simp: list_ex_iff list_all_iff)
  with assms(1) show ?thesis by (simp add: check_array_def)
qed

lemma nanmean_constant: "0 < n \<Longrightarrow> nanmean (replicate n (Fin v)) = Fin v"
  by (simp add: nanmean_def sum_list_replicate)

lemma nanvar_constant: "0 < n \<Longrightarrow> nanvar (replicate n (Fin v)) = Fin 0"
  by (simp add: nanvar_def sum_list_replicate Let_def)

lemma column_constant:
  assumes "\<forall>row \<in> set X. row ! j = Fin v"
  shows "column X j = replicate (length X) (Fin v)"
  using assms by (induction X) (auto simp: column_def)


text \<open>
  Claim C6, as amended.  For every matrix of at least one row and of finite entries in
  which a column is constant, the scaler raises no error: it returns, the scale of that
  column is 1, and every standardised value of the column is 0.  scikit-learn replaces
  a zero scale by 1; the script has no check of its own.
\<close>

theorem constant_column_scaled_by_one:
  assumes ne: "X \<noteq> []"
    and rows: "\<forall>row \<in> set X. length row = d \<and> list_all isfinite row"
    and j: "j < d"
    and const: "\<forall>row \<in> set X. row ! j = Fin v"
  shows "\<exists>scaler X_scaled. fit_transform X = Inr (scaler, X_scaled) \<and>
           scaler_scale scaler ! j = Fin 1 \<and> length X_scaled = length X \<and>
           (\<forall>i < length X. X_scaled ! i ! j = Fin 0)"
proof -
  define cols where "cols = map (column X) [0..<d]"
  define scaler where
    "scaler = \<lparr>scaler_mean = map nanmean cols, scaler_var = map nanvar cols,
               scaler_scale = map (handle_zeros_in_scale \<circ> nanvar) cols\<rparr>"
  define X_scaled where
    "X_scaled = map (\<lambda>row. map (\<lambda>(x, m, s). fdiv (fsub x m) s)
                     (zip row (zip (scaler_mean scaler) (scaler_scale scaler)))) X"
  have ok: "check_array X = Inr ()"
    using ne rows by (intro check_array_finite) auto
  have "hd X \<in> set X" using ne by simp
  then have d: "length (hd X) = d" using rows by blast
  have fit: "scaler_fit X = Inr scaler"
    by (simp add: scaler_fit_def ok d scaler_def cols_def Let_def)
  have width: "\<not> list_ex (\<lambda>row. length row \<noteq> length (scaler_mean scaler)) X"
    using rows by (auto simp: list_ex_iff scaler_def cols_def)
  have tr: "scaler_transform scaler X = Inr X_scaled"
    using width by (simp add: scaler_transform_def ok X_scaled_def)
  have n: "0 < length X" using ne by simp
  have colj: "column X j = replicate (length X) (Fin v)"
    by (rule column_constant [OF const])
  have mean: "scaler_mean scaler ! j = Fin v"
    using j by (simp add: scaler_def cols_def colj nanmean_constant [OF n])
  have scale: "scaler_scale scaler ! j = Fin 1"
    using j by (simp add: scaler_def cols_def colj nanvar_constant [OF n])
  have zero: "X_scaled ! i ! j = Fin 0" if "i < length X" for i
  proof -
    have row: "X ! i \<in> set X" using that by simp
    then have "length (X ! i) = d" "X ! i ! j = Fin v"
      using rows const by auto
    moreover have "length (scaler_mean scaler) = d" "length (scaler_scale scaler) = d"
      by (simp_all add: scaler_def cols_def)
    ultimately show ?thesis
      using that j mean scale by (simp add: X_scaled_def)
  qed
  have "fit_transform X = Inr (scaler, X_scaled)"
    by (simp add: fit_transform_def fit tr)
  moreover have "length X_scaled = length X" by (simp add: X_scaled_def)
  ultimately show ?thesis using scale zero by blast
qed


text \<open>The theorem at a matrix whose last column is constant.\<close>

theorem constant_column_scaled_by_one_witness:
  "\<exists>scaler X_scaled.
     fit_transform [[Fin 0, Fin 1, Fin 0], [Fin 2, Fin 3, Fin 0]] = Inr (scaler, X_scaled) \<and>
     scaler_scale scaler ! 2 = Fin 1 \<and> length X_scaled = 2 \<and>
     (\<forall>i < 2. X_scaled ! i ! 2 = Fin 0)"
proof -
  let ?X = "[[Fin 0, Fin 1, Fin 0], [Fin 2, Fin 3, Fin 0]]"
  have ne: "?X \<noteq> []" by simp
  have rows: "\<forall>row \<in> set ?X. length row = 3 \<and> list_all isfinite row" by simp
  have j: "(2::nat) < 3" by simp
  have const: "\<forall>row \<in> set ?X. row ! 2 = Fin 0" by simp
  have len: "length ?X = 2" by simp
  show ?thesis
    using constant_column_scaled_by_one [OF ne rows j const] unfolding len .
qed

text \<open>
  Claim C6 as stated fails: the volume change of this matrix is 0 in every row, its
  variance is 0, and the scaler returns normally.
\<close>

theorem constant_column_no_error:
  "fit_transform [[Fin 0, Fin 1, Fin 0], [Fin 2, Fin 3, Fin 0]] =
     Inr (\<lparr>scaler_mean = [Fin 1, Fin 2, Fin 0], scaler_var = [Fin 1, Fin 1, Fin 0],
            scaler_scale = [Fin 1, Fin 1, Fin 1]\<rparr>,
          [[Fin (- 1), Fin (- 1), Fin 0], [Fin 1, Fin 1, Fin 0]])"
  by (simp add: fit_transform_def two_rows_fit two_rows_transform)


section \<open>Too few rows\<close>

lemma parse_index_Inr:
  assumes "parse_index df = Inr df1"
  shows "\<exists>ts. getitem df ''datetime'' = Inr ts \<and> list_all in_timestamp_range ts"
  using assms
  by (auto simp: parse_index_def to_datetime_def split: sum.splits if_splits)

lemma add_features_Inr:
  assumes "add_features df = Inr out"
  shows "\<exists>c v. getitem df ''close'' = Inr c \<and> getitem df ''volume'' = Inr v"
  using assms
  by (auto simp: add_features_def getitem_setitem Let_def split: sum.splits)

lemma load_Inr:
  assumes "load_and_preprocess_data df = Inr data"
  shows "\<exists>ts close volume.
           getitem df ''datetime'' = Inr ts \<and> list_all in_timestamp_range ts \<and>
           getitem df ''close'' = Inr close \<and> getitem df ''volume'' = Inr volume"
proof -
  from assms obtain df1 df2 where p: "parse_index df = Inr df1"
    and a: "add_features df1 = Inr df2"
    by (auto simp: load_and_preprocess_data_def split: sum.splits)
  from parse_index_Inr [OF p] obtain ts where
    ts: "getitem df ''datetime'' = Inr ts" "list_all in_timestamp_range ts" by blast
  then have df1: "df1 = df\<lparr>index := ts, columns := AList.delete ''datetime'' (columns df)\<rparr>"
    using p parse_index_eq [OF ts] by simp
  from add_features_Inr [OF a] obtain c v where
    "getitem df1 ''close'' = Inr c" "getitem df1 ''volume'' = Inr v" by blast
  then have "getitem df ''close'' = Inr c" "getitem df ''volume'' = Inr v"
    unfolding df1 by (simp_all add: getitem_delete split: if_splits)
  with ts show ?thesis by blast
qed

lemma dropna_none:
  assumes "\<forall>i < nrows df. \<not> row_complete df i"
  shows "dropna df = take_rows [] df"
proof -
  have "filter (row_complete df) [0..<nrows df] = []"
    using assms by (simp add: filter_empty_conv)
  then show ?thesis by (simp add: dropna_def)
qed

lemma load_short:
  assumes wf: "well_formed df" and n: "nrows df \<le> 24"
    and ts: "getitem df ''datetime'' = Inr ts" "list_all in_timestamp_range ts"
    and cl: "getitem df ''close'' = Inr close" and vo: "getitem df ''volume'' = Inr volume"
  shows "load_and_preprocess_data df =
    Inr (take_rows [] (setitem (setitem (setitem
           (df\<lparr>index := ts, columns := AList.delete ''datetime'' (columns df)\<rparr>)
           ''Returns'' (pct_change close))
           ''Volatility'' (rolling_std 24 (pct_change close)))
           ''Volume_Change'' (pct_change volume)))"
proof -
  define R where "R = pct_change close"
  define V where "V = rolling_std 24 R"
  define df2 where "df2 = setitem (setitem (setitem
           (df\<lparr>index := ts, columns := AList.delete ''datetime'' (columns df)\<rparr>)
           ''Returns'' R) ''Volatility'' V) ''Volume_Change'' (pct_change volume)"
  have len: "length ts = nrows df" "length close = nrows df"
    using getitem_length [OF wf] ts(1) cl by simp_all
  have N2: "nrows df2 = nrows df"
    by (simp add: df2_def nrows_setitem) (simp add: nrows_def len)
  have gV: "getitem df2 ''Volatility'' = Inr V"
    by (simp add: df2_def getitem_setitem)
  have "\<not> row_complete df2 i" if i: "i < nrows df2" for i
  proof -
    have iN: "i < length R" using i N2 len by (simp add: R_def length_pct_change)
    have "R ! 0 = spec_returns close 0"
      unfolding R_def using iN by (intro pct_change_spec) (auto simp: R_def length_pct_change)
    then have R0: "isnan (R ! 0)" by (simp add: spec_returns_def)
    have "i < 24" using i N2 n by simp
    from spec_volatility_nan [OF this R0] have "isnan (V ! i)"
      unfolding V_def using nth_rolling_std_24 [OF iN] by simp
    moreover have "V \<in> set (map snd (columns df2))"
      by (rule getitem_in_columns [OF gV])
    ultimately show ?thesis unfolding row_complete_iff by blast
  qed
  then have "dropna df2 = take_rows [] df2" by (intro dropna_none) simp
  then show ?thesis
    using load_eq [OF ts cl vo] by (simp add: df2_def V_def R_def)
qed

lemma train_hmm_empty:
  assumes "feature_values data = Inr []"
  shows "train_hmm fit data k = Inl (ValueError ''Found array with 0 sample(s)'')"
  using assms
  by (simp add: train_hmm_def has_nan_or_inf_def fit_transform_def scaler_fit_def check_array_def)

lemma loaded_feature_values:
  assumes "load_and_preprocess_data df = Inr data"
  shows "\<exists>r v c. feature_values data = Inr (map (\<lambda>i. [r ! i, v ! i, c ! i]) [0..<nrows data])"
proof -
  from load_Inr [OF assms] obtain ts close volume where
    h: "getitem df ''datetime'' = Inr ts" "list_all in_timestamp_range ts"
       "getitem df ''close'' = Inr close" "getitem df ''volume'' = Inr volume" by blast
  from load_eq [OF h] assms obtain df2 where
    d: "data = dropna df2" and
    g: "getitem df2 ''Returns'' = Inr (pct_change close)"
       "getitem df2 ''Volatility'' = Inr (rolling_std 24 (pct_change close))"
       "getitem df2 ''Volume_Change'' = Inr (pct_change volume)"
    by (auto simp: getitem_setitem)
  show ?thesis
    unfolding d dropna_def
    by (intro exI feature_values_eq) (simp_all add: getitem_take_rows g)
qed

lemma load_day_candles: "load_and_preprocess_data day_candles = Inr empty_features"
proof -
  have wf: "well_formed day_candles"
    by (simp add: day_candles_def candles_well_formed)
  have n: "nrows day_candles \<le> 24"
    by (simp add: day_candles_def candles_nrows)
  have r: "list_all in_timestamp_range
      (map (\<lambda>i. Fin (3600 * real i)) [0..<length (replicate 24 (1::real))])"
    by (rule candles_in_range) simp
  show ?thesis
    unfolding day_candles_def
    by (subst load_short [OF wf [unfolded day_candles_def] n [unfolded day_candles_def]
          candles_getitem(1) r candles_getitem(2,3)])
       (simp add: candles_def setitem_def take_rows_def empty_features_def)
qed


text \<open>
  Claim C7, as amended.  \<open>load_and_preprocess_data\<close> raises nothing when no row is left:
  it returns the empty feature table, which is what every well-formed input of at most
  24 rows yields.  The pipeline then fails in \<open>train_hmm\<close>, whose input check passes an
  empty matrix and whose scaler rejects it with a \<open>ValueError\<close> for an array of no
  samples, before anything is fitted.
\<close>

theorem empty_feature_table_fails_in_scaler:
  "(load_and_preprocess_data df = Inr data \<and> nrows data = 0 \<longrightarrow>
      train_hmm fit data k = Inl (ValueError ''Found array with 0 sample(s)'') \<and>
      main fit log_density df = Inl (ValueError ''Found array with 0 sample(s)'')) \<and>
   (well_formed df \<and> nrows df \<le> 24 \<and> load_and_preprocess_data df = Inr data \<longrightarrow>
      nrows data = 0)"
proof (intro conjI impI)
  assume a: "load_and_preprocess_data df = Inr data \<and> nrows data = 0"
  then have fv: "feature_values data = Inr []"
    using loaded_feature_values [of df data] by auto
  then show "train_hmm fit data k = Inl (ValueError ''Found array with 0 sample(s)'')"
    by (rule train_hmm_empty)
  show "main fit log_density df = Inl (ValueError ''Found array with 0 sample(s)'')"
    using a train_hmm_empty [OF fv, of fit 4] by (simp add: main_def)
next
  assume a: "well_formed df \<and> nrows df \<le> 24 \<and> load_and_preprocess_data df = Inr data"
  then obtain ts close volume where
    h: "getitem df ''datetime'' = Inr ts" "list_all in_timestamp_range ts"
       "getitem df ''close'' = Inr close" "getitem df ''volume'' = Inr volume"
    using load_Inr [of df data] by blast
  from a load_short [OF _ _ h] show "nrows data = 0"
    by (auto simp: nrows_take_rows)
qed


text \<open>The theorem at the table of 24 flat candles.\<close>

theorem empty_feature_table_fails_in_scaler_witness:
  "well_formed day_candles \<and> nrows day_candles \<le> 24 \<and>
   load_and_preprocess_data day_candles = Inr empty_features \<and> nrows empty_features = 0 \<and>
   train_hmm uniform_fit empty_features 4 = Inl (ValueError ''Found array with 0 sample(s)'') \<and>
   main uniform_fit distance_density day_candles =
     Inl (ValueError ''Found array with 0 sample(s)'')"
proof -
  have wf: "well_formed day_candles"
    by (simp add: day_candles_def candles_well_formed)
  have n: "nrows day_candles \<le> 24"
    by (simp add: day_candles_def candles_nrows)
  show ?thesis
    using empty_feature_table_fails_in_scaler
      [of day_candles empty_features uniform_fit 4 distance_density]
      wf n load_day_candles
    by simp
qed

text \<open>
  Claim C7 as stated fails: on 24 candles the feature engine returns the empty table and
  raises nothing; no insufficient-data error exists in the script.
\<close>

theorem day_of_candles_loads_empty:
  "nrows day_candles = 24 \<and>
   load_and_preprocess_data day_candles =
     Inr \<lparr>index = [],
          columns = [(''open'', []), (''high'', []), (''low'', []), (''close'', []),
                     (''volume'', []), (''Returns'', []), (''Volatility'', []),
                     (''Volume_Change'', [])]\<rparr>"
proof
  show "nrows day_candles = 24"
    by (simp add: day_candles_def candles_nrows)
  show "load_and_preprocess_data day_candles =
     Inr \<lparr>index = [],
          columns = [(''open'', []), (''high'', []), (''low'', []), (''close'', []),
                     (''volume'', []), (''Returns'', []), (''Volatility'', []),
                     (''Volume_Change'', [])]\<rparr>"
    using load_day_candles by (simp only: empty_features_def)
qed

section \<open>Missing columns\<close>

lemma getitem_absent:
  "label \<notin> fst ` set (columns df) \<Longrightarrow> getitem df label = Inl (KeyError label)"
  by (simp add: getitem_def map_of_eq_None_iff [THEN iffD2])

lemma load_bare_candles: "load_and_preprocess_data bare_candles = Inr bare_features"
proof -
  have ts: "getitem bare_candles ''datetime'' = Inr (map (\<lambda>i. Fin (3600 * real i)) [0..<25])"
    and cl: "getitem bare_candles ''close'' = Inr (map Fin (replicate 25 1))"
    and vo: "getitem bare_candles ''volume'' = Inr (map Fin (replicate 25 1))"
    by (simp_all add: bare_candles_def getitem_def)
  have r: "list_all in_timestamp_range (map (\<lambda>i. Fin (3600 * real i)) [0..<25])"
    by (auto simp: list_all_iff)
  show ?thesis
    apply (subst load_eq [OF ts r cl vo])
    apply (simp only: pct_change_flat rolling_std_flat)
    apply (simp add: bare_candles_def setitem_def dropna_def nrows_def upt_25 row_complete_def
        take_rows_def eval_nat_numeral nth_append nth_Cons' bare_features_def)
    done
qed


text \<open>
  Claim C8, as amended.  \<open>load_and_preprocess_data\<close> fails with a \<open>KeyError\<close> naming the
  column when the table lacks \<open>datetime\<close> (before any feature is computed), when it
  lacks \<open>close\<close>, and when it lacks \<open>volume\<close> (raised where the column is first read).
  The open, high and low columns are never read, so their absence is not detected.
\<close>

theorem absent_column_key_error:
  "(''datetime'' \<notin> fst ` set (columns df) \<longrightarrow>
      load_and_preprocess_data df = Inl (KeyError ''datetime'')) \<and>
   (getitem df ''datetime'' = Inr ts \<and> list_all in_timestamp_range ts \<and>
    ''close'' \<notin> fst ` set (columns df) \<longrightarrow>
      load_and_preprocess_data df = Inl (KeyError ''close'')) \<and>
   (getitem df ''datetime'' = Inr ts \<and> list_all in_timestamp_range ts \<and>
    getitem df ''close'' = Inr close \<and> ''volume'' \<notin> fst ` set (columns df) \<longrightarrow>
      load_and_preprocess_data df = Inl (KeyError ''volume''))"
proof (intro conjI impI)
  assume "''datetime'' \<notin> fst ` set (columns df)"
  then show "load_and_preprocess_data df = Inl (KeyError ''datetime'')"
    by (simp add: load_and_preprocess_data_def parse_index_def getitem_absent)
next
  assume a: "getitem df ''datetime'' = Inr ts \<and> list_all in_timestamp_range ts \<and>
    ''close'' \<notin> fst ` set (columns df)"
  then have "getitem df ''close'' = Inl (KeyError ''close'')"
    by (simp add: getitem_absent)
  then show "load_and_preprocess_data df = Inl (KeyError ''close'')"
    using a
    by (simp add: load_and_preprocess_data_def parse_index_eq add_features_def getitem_delete)
next
  assume a: "getitem df ''datetime'' = Inr ts \<and> list_all in_timestamp_range ts \<and>
    getitem df ''close'' = Inr close \<and> ''volume'' \<notin> fst ` set (columns df)"
  then have "getitem df ''volume'' = Inl (KeyError ''volume'')"
    by (simp add: getitem_absent)
  then show "load_and_preprocess_data df = Inl (KeyError ''volume'')"
    using a
    by (simp add: load_and_preprocess_data_def parse_index_eq add_features_def getitem_delete
        getitem_setitem Let_def)
qed


text \<open>The three cases at tables of one row that lack the column.\<close>

theorem absent_column_key_error_witness:
  "load_and_preprocess_data \<lparr>index = [Fin 0], columns = [(''close'', [Fin 1])]\<rparr> =
     Inl (KeyError ''datetime'') \<and>
   load_and_preprocess_data
     \<lparr>index = [Fin 0], columns = [(''datetime'', [Fin 0]), (''volume'', [Fin 1])]\<rparr> =
     Inl (KeyError ''close'') \<and>
   load_and_preprocess_data
     \<lparr>index = [Fin 0], columns = [(''datetime'', [Fin 0]), (''close'', [Fin 1])]\<rparr> =
     Inl (KeyError ''volume'')"
  using
    absent_column_key_error
      [of "\<lparr>index = [Fin 0], columns = [(''close'', [Fin 1])]\<rparr>" "[]" "[]"]
    absent_column_key_error
      [of "\<lparr>index = [Fin 0], columns = [(''datetime'', [Fin 0]), (''volume'', [Fin 1])]\<rparr>"
        "[Fin 0]" "[]"]
    absent_column_key_error
      [of "\<lparr>index = [Fin 0], columns = [(''datetime'', [Fin 0]), (''close'', [Fin 1])]\<rparr>"
        "[Fin 0]" "[Fin 1]"]
  by (simp add: getitem_def)

text \<open>
  Claim C8 as stated fails: \<open>bare_candles\<close> has no open, high or low column and is loaded
  without error.
\<close>

theorem candles_without_ohl_load:
  "''open'' \<notin> fst ` set (columns bare_candles) \<and>
   ''high'' \<notin> fst ` set (columns bare_candles) \<and>
   ''low'' \<notin> fst ` set (columns bare_candles) \<and>
   load_and_preprocess_data bare_candles = Inr bare_features"
  by (simp add: load_bare_candles) (simp add: bare_candles_def)


section \<open>The decoded state sequence\<close>

lemma argmax_from_range:
  "argmax_from i pos best xs = pos \<or>
   (i \<le> argmax_from i pos best xs \<and> argmax_from i pos best xs < i + length xs)"
proof (induction xs arbitrary: i pos best)
  case Nil
  then show ?case by simp
next
  case (Cons x xs)
  show ?case
  proof (cases "fless best x")
    case True
    with Cons [of "Suc i" i x] show ?thesis by auto
  next
    case False
    with Cons [of "Suc i" pos best] show ?thesis by auto
  qed
qed

lemma argmax_less: "xs \<noteq> [] \<Longrightarrow> argmax xs < length xs"
  using argmax_from_range [of 0 0 NInf xs] by (auto simp: argmax_def)

lemma length_viterbi_lattice: "length (viterbi_lattice k lt prev frames) = length frames"
  by (induction frames arbitrary: prev) (auto simp: Let_def)

lemma viterbi_lattice_rows:
  "row \<in> set (viterbi_lattice k lt prev frames) \<Longrightarrow> length row = k"
  by (induction frames arbitrary: prev) (auto simp: Let_def)

lemma length_traceback: "length (traceback k lt s rows) = length rows"
  by (induction rows arbitrary: s) (auto simp: Let_def)

lemma traceback_range: "0 < k \<Longrightarrow> s \<in> set (traceback k lt s0 rows) \<Longrightarrow> s < k"
proof (induction rows arbitrary: s0)
  case Nil
  then show ?case by simp
next
  case (Cons row rows)
  have "argmax (map (\<lambda>i. fadd (row ! i) (lt ! i ! s0)) [0..<k]) < k"
    using argmax_less [of "map (\<lambda>i. fadd (row ! i) (lt ! i ! s0)) [0..<k]"] Cons.prems(1)
    by simp
  with Cons show ?case by (auto simp: Let_def)
qed

lemma length_viterbi: "length (viterbi k ls lt frames) = length frames"
  by (cases frames) (simp_all add: viterbi_def Let_def length_traceback length_viterbi_lattice)

lemma viterbi_range:
  assumes "0 < k" "s \<in> set (viterbi k ls lt frames)"
  shows "s < k"
proof (cases frames)
  case Nil
  with assms show ?thesis by (simp add: viterbi_def)
next
  case (Cons frame rest)
  define first where "first = map (\<lambda>i. fadd (ls ! i) (frame ! i)) [0..<k]"
  define lattice where "lattice = first # viterbi_lattice k lt first rest"
  define final where "final = argmax (last lattice)"
  have "last lattice \<in> set lattice" by (simp add: lattice_def)
  then have "length (last lattice) = k"
    unfolding lattice_def using viterbi_lattice_rows [of _ k lt first rest]
    by (auto simp: first_def)
  with assms(1) have f: "final < k"
    unfolding final_def using argmax_less [of "last lattice"] by auto
  have "set (viterbi k ls lt frames) =
      insert final (set (traceback k lt final (tl (rev lattice))))"
    by (simp add: viterbi_def Cons Let_def first_def lattice_def final_def)
  with assms(2) f traceback_range [OF assms(1)] show ?thesis by auto
qed

lemma hmm_predict_Inr:
  assumes "hmm_predict log_density m X = Inr states"
  shows "length states = length X"
    and "0 < n_components m \<Longrightarrow> s \<in> set states \<Longrightarrow> s < n_components m"
  using assms viterbi_range [of "n_components m" s]
  by (auto simp: hmm_predict_def length_viterbi split: if_splits)

lemma feature_values_length: "feature_values data = Inr X \<Longrightarrow> length X = nrows data"
  by (auto simp: feature_values_def split: sum.splits)

lemma scaler_transform_length: "scaler_transform scaler X = Inr Xs \<Longrightarrow> length Xs = length X"
  by (auto simp: scaler_transform_def split: sum.splits if_splits)

lemma predict_states_Inr:
  assumes "predict_states log_density m data scaler = Inr states"
  shows "length states = nrows data"
    and "0 < n_components m \<Longrightarrow> s \<in> set states \<Longrightarrow> s < n_components m"
proof -
  from assms obtain X Xs where x: "feature_values data = Inr X"
    "scaler_transform scaler X = Inr Xs" "hmm_predict log_density m Xs = Inr states"
    by (auto simp: predict_states_def split: sum.splits)
  show "length states = nrows data"
    using hmm_predict_Inr(1) [OF x(3)] scaler_transform_length [OF x(2)]
      feature_values_length [OF x(1)] by simp
  show "0 < n_components m \<Longrightarrow> s \<in> set states \<Longrightarrow> s < n_components m"
    by (rule hmm_predict_Inr(2) [OF x(3)])
qed

lemma feature_values_rows:
  "feature_values data = Inr X \<Longrightarrow> row \<in> set X \<Longrightarrow> length row = 3"
  by (auto simp: feature_values_def split: sum.splits)

lemma nanmean_finite:
  assumes "col \<noteq> []" "list_all isfinite col"
  shows "isfinite (nanmean col)"
  using assms by (simp add: nanmean_def filter_all_id)

lemma scale_finite_nonzero:
  assumes "col \<noteq> []" "list_all isfinite col"
  shows "isfinite (handle_zeros_in_scale (nanvar col)) \<and>
         handle_zeros_in_scale (nanvar col) \<noteq> Fin 0"
  using assms by (simp add: nanvar_def filter_all_id Let_def)

lemma standardise_finite:
  "isfinite x \<Longrightarrow> isfinite m \<Longrightarrow> isfinite s \<Longrightarrow> s \<noteq> Fin 0 \<Longrightarrow> isfinite (fdiv (fsub x m) s)"
  by (cases x; cases m; cases s) auto

lemma column_finite:
  assumes "\<forall>row \<in> set X. length row = d \<and> list_all isfinite row" "j < d"
  shows "list_all isfinite (column X j)"
  using assms by (auto simp: column_def list_all_iff)

lemma fit_transform_finite:
  assumes ft: "fit_transform X = Inr (scaler, Xs)"
    and rows: "\<forall>row \<in> set X. length row = d \<and> list_all isfinite row"
  shows "\<forall>row \<in> set Xs. \<forall>x \<in> set row. isfinite x"
proof -
  from ft have "X \<noteq> []"
    by (auto simp: fit_transform_def scaler_fit_def check_array_def split: sum.splits if_splits)
  then have "hd X \<in> set X" by simp
  then have d: "length (hd X) = d" using rows by blast
  define cols where "cols = map (column X) [0..<d]"
  have colfin: "c \<noteq> [] \<and> list_all isfinite c" if "c \<in> set cols" for c
    using that \<open>X \<noteq> []\<close> column_finite [OF rows] by (auto simp: cols_def) (simp add: column_def)
  from ft have sc: "scaler_mean scaler = map nanmean cols"
    "scaler_scale scaler = map (handle_zeros_in_scale \<circ> nanvar) cols"
    by (auto simp: fit_transform_def scaler_fit_def Let_def d cols_def split: sum.splits)
  have m: "isfinite m" if "m \<in> set (scaler_mean scaler)" for m
    using that colfin nanmean_finite by (auto simp: sc)
  have s: "isfinite s \<and> s \<noteq> Fin 0" if "s \<in> set (scaler_scale scaler)" for s
    using that colfin scale_finite_nonzero by (auto simp: sc)
  from ft have Xs: "Xs = map (\<lambda>row. map (\<lambda>(x, m, s). fdiv (fsub x m) s)
                     (zip row (zip (scaler_mean scaler) (scaler_scale scaler)))) X"
    by (auto simp: fit_transform_def scaler_transform_def split: sum.splits if_splits)
  show ?thesis
  proof (intro ballI)
    fix row x assume "row \<in> set Xs" "x \<in> set row"
    then obtain r a b c where r: "r \<in> set X"
      and z: "(a, b, c) \<in> set (zip r (zip (scaler_mean scaler) (scaler_scale scaler)))"
      and x: "x = fdiv (fsub a b) c"
      unfolding Xs by auto
    from z have "a \<in> set r" "(b, c) \<in> set (zip (scaler_mean scaler) (scaler_scale scaler))"
      by (auto dest: set_zip_leftD set_zip_rightD)
    then have "a \<in> set r" "b \<in> set (scaler_mean scaler)" "c \<in> set (scaler_scale scaler)"
      by (auto dest: set_zip_leftD set_zip_rightD)
    moreover have "isfinite a" using r rows \<open>a \<in> set r\<close> by (auto simp: list_all_iff)
    ultimately show "isfinite x"
      unfolding x using m s by (intro standardise_finite) auto
  qed
qed

lemma train_then_predict:
  assumes "train_hmm fit data k = Inr (m, scaler)"
  shows "\<exists>states. predict_states log_density m data scaler = Inr states"
proof -
  from assms obtain X Xs where x: "feature_values data = Inr X" "\<not> has_nan_or_inf X"
    "fit_transform X = Inr (scaler, Xs)"
    by (auto simp: train_hmm_def split: sum.splits prod.splits if_splits)
  have rows: "\<forall>row \<in> set X. length row = 3 \<and> list_all isfinite row"
    using feature_values_rows [OF x(1)] x(2)
    by (auto simp: has_nan_or_inf_iff list_all_iff)
  have fin: "\<not> has_nan_or_inf Xs"
    using fit_transform_finite [OF x(3) rows] by (simp add: has_nan_or_inf_iff)
  from x(3) have tr: "scaler_transform scaler X = Inr Xs" and "X \<noteq> []"
    by (auto simp: fit_transform_def scaler_fit_def check_array_def split: sum.splits if_splits)
  then have "Xs \<noteq> []" using scaler_transform_length [OF tr] by auto
  then show ?thesis
    using x(1) tr fin by (simp add: predict_states_def hmm_predict_def)
qed


text \<open>
  Claim C9.  For every fitted model with \<open>K > 0\<close> states, whenever \<open>predict_states\<close>
  returns a state sequence for a table, the sequence has one entry per row of the table,
  in the order of the rows, and every entry is below \<open>K\<close>.  It does return one on the
  table the model was trained on, with the scaler returned by \<open>train_hmm\<close>, which is how
  the main script calls it.
\<close>

theorem one_label_per_row_in_range:
  assumes "0 < n_components m"
  shows "(\<forall>states. predict_states log_density m data scaler = Inr states \<longrightarrow>
            length states = nrows data \<and> (\<forall>s \<in> set states. s < n_components m)) \<and>
         (\<forall>fit k. train_hmm fit data k = Inr (m, scaler) \<longrightarrow>
            (\<exists>states. predict_states log_density m data scaler = Inr states))"
  using assms predict_states_Inr [of log_density m data scaler] train_then_predict
  by blast


text \<open>The theorem at the two-row table, the model of four states and its scaler.\<close>

theorem one_label_per_row_in_range_witness:
  "0 < n_components (uniform_model 4) \<and>
   (\<exists>states. predict_states distance_density (uniform_model 4) two_feature_rows
        \<lparr>scaler_mean = [Fin 1, Fin 2, Fin 0], scaler_var = [Fin 1, Fin 1, Fin 0],
         scaler_scale = [Fin 1, Fin 1, Fin 1]\<rparr> = Inr states \<and>
      length states = 2 \<and> (\<forall>s \<in> set states. s < 4))"
proof -
  have k: "0 < n_components (uniform_model 4)"
    by (simp add: uniform_model_def)
  have n4: "n_components (uniform_model 4) = 4"
    by (simp add: uniform_model_def)
  have n: "nrows two_feature_rows = 2"
    by (simp add: two_feature_rows_def nrows_def)
  note t = one_label_per_row_in_range [OF k, of distance_density two_feature_rows
      "\<lparr>scaler_mean = [Fin 1, Fin 2, Fin 0], scaler_var = [Fin 1, Fin 1, Fin 0],
        scaler_scale = [Fin 1, Fin 1, Fin 1]\<rparr>", unfolded n4 n]
  from t two_rows_train obtain states where
    "predict_states distance_density (uniform_model 4) two_feature_rows
        \<lparr>scaler_mean = [Fin 1, Fin 2, Fin 0], scaler_var = [Fin 1, Fin 1, Fin 0],
         scaler_scale = [Fin 1, Fin 1, Fin 1]\<rparr> = Inr states"
    by blast
  with t k show ?thesis by blast
qed


section \<open>The global model in reporting and plotting\<close>

lemma for_each_length: "for_each body xs = Inr ys \<Longrightarrow> length ys = length xs"
  by (induction xs arbitrary: ys) (auto split: sum.splits)

lemma for_each_total:
  "\<forall>x \<in> set xs. \<exists>y. body x = Inr y \<Longrightarrow> \<exists>ys. for_each body xs = Inr ys"
  by (induction xs) (auto split: sum.splits)

lemma feature_values_columns:
  assumes "feature_values data = Inr X"
  shows "\<exists>r v c. getitem data ''Returns'' = Inr r \<and> getitem data ''Volatility'' = Inr v \<and>
           getitem data ''Volume_Change'' = Inr c"
  using assms by (auto simp: feature_values_def split: sum.splits)

lemma analyze_states_Inr:
  assumes g: "model g = Some m" and len: "length states = nrows data"
    and fv: "feature_values data = Inr X"
  shows "\<exists>r. analyze_states g data states = Inr r \<and> length r = n_components m"
proof -
  define labels where "labels = map (\<lambda>s. Fin (real s)) states"
  define df_analysis where "df_analysis = setitem data ''State'' labels"
  from feature_values_columns [OF fv] obtain r v c where
    cols: "getitem data ''Returns'' = Inr r" "getitem data ''Volatility'' = Inr v"
      "getitem data ''Volume_Change'' = Inr c" by blast
  have "\<exists>y. analyze_state df_analysis state = Inr y" for state
  proof -
    define keep where
      "keep = filter (\<lambda>i. labels ! i = Fin (real state)) [0..<nrows df_analysis]"
    have "feature_values (take_rows keep df_analysis) =
        Inr (map (\<lambda>i. [map ((!) r) keep ! i, map ((!) v) keep ! i, map ((!) c) keep ! i])
               [0..<nrows (take_rows keep df_analysis)])"
      by (rule feature_values_eq)
         (simp_all add: getitem_take_rows df_analysis_def getitem_setitem cols)
    then show ?thesis
      by (simp add: analyze_state_def df_analysis_def getitem_setitem keep_def Let_def)
  qed
  then obtain rep where rep: "for_each (analyze_state df_analysis) [0..<n_components m] = Inr rep"
    using for_each_total [of "[0..<n_components m]" "analyze_state df_analysis"] by blast
  then have "analyze_states g data states = Inr rep"
    using g len
    by (simp add: analyze_states_def setitem_array_def lookup_model_def df_analysis_def labels_def)
  moreover have "length rep = n_components m"
    using for_each_length [OF rep] by simp
  ultimately show ?thesis by blast
qed

lemma plot_results_Inr:
  assumes g: "model g = Some m" and len: "length states = nrows data"
    and fv: "feature_values data = Inr X" and cl: "getitem data ''close'' = Inr close"
  shows "\<exists>f. plot_results g data states = Inr f \<and> length (bands f) = n_components m"
proof -
  from feature_values_columns [OF fv] obtain r where r: "getitem data ''Returns'' = Inr r"
    by blast
  have "\<exists>y. fill_between data states state = Inr y" for state
    using len by (simp add: fill_between_def Let_def)
  then obtain bs where bs: "for_each (fill_between data states) [0..<n_components m] = Inr bs"
    using for_each_total [of "[0..<n_components m]" "fill_between data states"] by blast
  then have "plot_results g data states =
      Inr \<lparr>price_line = (index data, close), bands = bs, returns_line = (index data, r)\<rparr>"
    using g cl r by (simp add: plot_results_def lookup_model_def)
  moreover have "length bs = n_components m"
    using for_each_length [OF bs] by simp
  ultimately show ?thesis by auto
qed

lemma unbound_model:
  "model g = None \<Longrightarrow> length states = nrows data \<Longrightarrow>
     analyze_states g data states = Inl (NameError ''model'')"
  by (simp add: analyze_states_def setitem_array_def lookup_model_def)


text \<open>
  Claim C10.  \<open>analyze_states\<close> and \<open>plot_results\<close> take the number of states from the
  global \<open>model\<close>: on a table with its feature columns and a close column and a state
  sequence of matching length, the report has one entry and the figure one band per
  state of the global model, so under two global models with different numbers of
  states the same arguments give different results.
\<close>

theorem report_and_plot_read_global_model:
  assumes "model g1 = Some m1" "model g2 = Some m2" "n_components m1 \<noteq> n_components m2"
    and "length states = nrows data" "feature_values data = Inr X"
    and "getitem data ''close'' = Inr close"
  shows "\<exists>r1 r2 f1 f2.
     analyze_states g1 data states = Inr r1 \<and> length r1 = n_components m1 \<and>
     analyze_states g2 data states = Inr r2 \<and> length r2 = n_components m2 \<and>
     analyze_states g1 data states \<noteq> analyze_states g2 data states \<and>
     plot_results g1 data states = Inr f1 \<and> length (bands f1) = n_components m1 \<and>
     plot_results g2 data states = Inr f2 \<and> length (bands f2) = n_components m2 \<and>
     plot_results g1 data states \<noteq> plot_results g2 data states"
proof -
  from analyze_states_Inr [OF assms(1,4,5)] analyze_states_Inr [OF assms(2,4,5)]
  obtain r1 r2 where r: "analyze_states g1 data states = Inr r1" "length r1 = n_components m1"
    "analyze_states g2 data states = Inr r2" "length r2 = n_components m2" by blast
  from plot_results_Inr [OF assms(1,4,5,6)] plot_results_Inr [OF assms(2,4,5,6)]
  obtain f1 f2 where f: "plot_results g1 data states = Inr f1"
    "length (bands f1) = n_components m1"
    "plot_results g2 data states = Inr f2" "length (bands f2) = n_components m2" by blast
  have "r1 \<noteq> r2" "f1 \<noteq> f2" using r f assms(3) by auto
  with r f show ?thesis by auto
qed


text \<open>The theorem at the two-row table with global models of four and of two states.\<close>

theorem report_and_plot_read_global_model_witness:
  "\<exists>r1 r2 f1 f2.
     analyze_states \<lparr>model = Some (uniform_model 4)\<rparr> two_feature_rows [0, 1] = Inr r1 \<and>
     length r1 = 4 \<and>
     analyze_states \<lparr>model = Some (uniform_model 2)\<rparr> two_feature_rows [0, 1] = Inr r2 \<and>
     length r2 = 2 \<and>
     analyze_states \<lparr>model = Some (uniform_model 4)\<rparr> two_feature_rows [0, 1] \<noteq>
     analyze_states \<lparr>model = Some (uniform_model 2)\<rparr> two_feature_rows [0, 1] \<and>
     plot_results \<lparr>model = Some (uniform_model 4)\<rparr> two_feature_rows [0, 1] = Inr f1 \<and>
     length (bands f1) = 4 \<and>
     plot_results \<lparr>model = Some (uniform_model 2)\<rparr> two_feature_rows [0, 1] = Inr f2 \<and>
     length (bands f2) = 2 \<and>
     plot_results \<lparr>model = Some (uniform_model 4)\<rparr> two_feature_rows [0, 1] \<noteq>
     plot_results \<lparr>model = Some (uniform_model 2)\<rparr> two_feature_rows [0, 1]"
proof -
  have g1: "model \<lparr>model = Some (uniform_model 4)\<rparr> = Some (uniform_model 4)"
    and g2: "model \<lparr>model = Some (uniform_model 2)\<rparr> = Some (uniform_model 2)"
    by simp_all
  have ne: "n_components (uniform_model 4) \<noteq> n_components (uniform_model 2)"
    by (simp add: uniform_model_def)
  have len: "length [0, 1 :: nat] = nrows two_feature_rows"
    by (simp add: two_feature_rows_def nrows_def)
  have cl: "getitem two_feature_rows ''close'' = Inr [Fin 1, Fin 3]"
    by (simp add: two_feature_rows_def getitem_def)
  have n4: "n_components (uniform_model 4) = 4" and n2: "n_components (uniform_model 2) = 2"
    by (simp_all add: uniform_model_def)
  show ?thesis
    using report_and_plot_read_global_model [OF g1 g2 ne len two_feature_rows_values cl]
    unfolding n4 n2 .
qed


end
